theory Spec2Isabelle
  imports Complex_Main
begin

section \<open>Conventions of the embedding\<close>

text \<open>
  The stores of \<^verbatim>\<open>stores/subscription.js\<close> and \<^verbatim>\<open>stores/billing.js\<close> are closures over
  mutable maps. Each is modelled by a record of its maps, and every method is a function
  from the record (and the clock reading, where the method calls \<^verbatim>\<open>Date.now()\<close>) to the
  result and the updated record.

  Numbers: minutes, prices and costs are exact rationals; timestamps and durations in
  milliseconds are integers, as every caller passes them (\<^verbatim>\<open>Date.now()\<close>, \<^verbatim>\<open>Date.parse\<close>,
  \<^verbatim>\<open>Number.parseInt\<close>, whole days times \<open>86400000\<close>, the constants of the plans). The code
  computes in IEEE doubles. On integers of magnitude up to \<open>2^53 - 1\<close> (\<open>MAX_SAFE_INTEGER\<close>)
  doubles are exact, and the statements about timestamps are made for results in that
  range. Sums and products of prices are rounded by the code in the last of about sixteen
  digits; concrete amounts are therefore stated only for the amounts that \<^verbatim>\<open>recordUsage\<close> has
  rounded to four decimals, where code and model agree.
  A value that JavaScript's \<^verbatim>\<open>Number(...)\<close> maps to a finite number is \<open>Some\<close> of it;
  \<^verbatim>\<open>undefined\<close>, \<^verbatim>\<open>NaN\<close> and the other non-finite results are \<open>None\<close>.

  Strings: a tenant identifier as a caller passes it is \<open>Some\<close> string, or \<open>None\<close> for a value
  that is not a string; a redeem code and a task identifier are strings, the empty string
  being the falsy one. The messages of the source, which are Chinese text, are constructors
  of a datatype.
\<close>

section \<open>Billing store: tiered prices\<close>

text \<open>
  A tier of a normalised price list: \<^verbatim>\<open>{ upToMinutes, unitPrice }\<close>. After
  \<^verbatim>\<open>normalizeTieredPrices\<close> the boundary is a finite number or \<^verbatim>\<open>Number.POSITIVE_INFINITY\<close>.
\<close>

datatype bound = Fin rat | PosInf

record tier =
  upToMinutes :: bound
  unitPrice :: rat

text \<open>\<^verbatim>\<open>totalMinutes <= tier.upToMinutes\<close>\<close>

fun holds :: "rat \<Rightarrow> bound \<Rightarrow> bool" where
  "holds totalMinutes (Fin b) = (totalMinutes \<le> b)"
| "holds totalMinutes PosInf = True"

text \<open>The \<^verbatim>\<open>for (const tier of tieredPrices)\<close> loop of \<^verbatim>\<open>resolveCurrentTierUnitPrice\<close>:
  the price of the first tier that holds the total, if the loop returns.\<close>

fun tierScan :: "tier list \<Rightarrow> rat \<Rightarrow> rat option" where
  "tierScan [] totalMinutes = None"
| "tierScan (t # ts) totalMinutes =
     (if holds totalMinutes (upToMinutes t) then Some (unitPrice t) else tierScan ts totalMinutes)"

text \<open>\<^verbatim>\<open>x || fallbackUnitPrice\<close> on a number: zero is falsy.\<close>

definition orElse :: "rat \<Rightarrow> rat \<Rightarrow> rat" where
  "orElse x d = (if x = 0 then d else x)"

definition resolveCurrentTierUnitPrice :: "tier list \<Rightarrow> rat \<Rightarrow> rat \<Rightarrow> rat" where
  "resolveCurrentTierUnitPrice tieredPrices totalMinutes fallbackUnitPrice =
     (if tieredPrices = [] then fallbackUnitPrice
      else case tierScan tieredPrices totalMinutes of
             Some p \<Rightarrow> p
           | None \<Rightarrow> orElse (unitPrice (last tieredPrices)) fallbackUnitPrice)"

text \<open>
  The loop of \<^verbatim>\<open>calculateTieredCost\<close> over the variables \<^verbatim>\<open>remaining\<close>, \<^verbatim>\<open>cost\<close> and
  \<^verbatim>\<open>cursor\<close>; it returns \<^verbatim>\<open>remaining\<close> and \<^verbatim>\<open>cost\<close> as they are when the loop ends
  (by \<^verbatim>\<open>break\<close> or by running out of tiers).
\<close>

fun tierLoop :: "tier list \<Rightarrow> rat \<Rightarrow> rat \<Rightarrow> rat \<Rightarrow> rat \<times> rat" where
  "tierLoop [] remaining cost cursor = (remaining, cost)"
| "tierLoop (t # ts) remaining cost cursor =
     (if remaining \<le> 0 then (remaining, cost)
      else
        let available = (case upToMinutes t of
                           Fin limit \<Rightarrow> max 0 (limit - cursor)
                         | PosInf \<Rightarrow> remaining)
        in if available \<le> 0 then tierLoop ts remaining cost cursor
           else
             let used = min remaining available
             in tierLoop ts (remaining - used) (cost + used * unitPrice t) (cursor + used))"

definition calculateTieredCost :: "tier list \<Rightarrow> rat \<Rightarrow> rat \<Rightarrow> rat \<Rightarrow> rat" where
  "calculateTieredCost tieredPrices prevMinutes addMinutes fallbackUnitPrice =
     (if tieredPrices = [] then addMinutes * fallbackUnitPrice
      else
        case tierLoop tieredPrices addMinutes 0 prevMinutes of
          (remaining, cost) \<Rightarrow>
            if remaining > 0 then cost + remaining * fallbackUnitPrice else cost)"

subsection \<open>The tier-crossing algorithm as the specification words it\<close>

text \<open>
  Written from the pseudocode of the specification, not from the source: the room of a
  tier is \<open>boundary - cursor\<close>, unbounded for an infinite boundary; a tier with no room is
  skipped; what remains after the last tier is billed at the fallback price.
\<close>

fun spec_walk :: "tier list \<Rightarrow> rat \<Rightarrow> rat \<Rightarrow> rat \<Rightarrow> rat \<times> rat" where
  "spec_walk [] remaining cost cursor = (remaining, cost)"
| "spec_walk (t # ts) remaining cost cursor =
     (if remaining \<le> 0 then (remaining, cost)
      else case upToMinutes t of
             PosInf \<Rightarrow>
               spec_walk ts 0 (cost + remaining * unitPrice t) (cursor + remaining)
           | Fin boundary \<Rightarrow>
               if boundary - cursor \<le> 0 then spec_walk ts remaining cost cursor
               else
                 let used = min remaining (boundary - cursor)
                 in spec_walk ts (remaining - used) (cost + used * unitPrice t) (cursor + used))"

definition spec_tier_cost :: "tier list \<Rightarrow> rat \<Rightarrow> rat \<Rightarrow> rat \<Rightarrow> rat" where
  "spec_tier_cost tiers prev add fallbackUnitPrice =
     (case spec_walk tiers add 0 prev of
        (remaining, cost) \<Rightarrow>
          if remaining > 0 then cost + remaining * fallbackUnitPrice else cost)"

text \<open>The price list of the repository's test \<^verbatim>\<open>applies tiered pricing per day\<close>.\<close>

definition testTiers :: "tier list" where
  "testTiers =
     [\<lparr>upToMinutes = Fin 2, unitPrice = 2 / 10\<rparr>,
      \<lparr>upToMinutes = Fin 5, unitPrice = 1 / 10\<rparr>,
      \<lparr>upToMinutes = PosInf, unitPrice = 5 / 100\<rparr>]"

section \<open>Tenant keys\<close>

text \<open>
  \<^verbatim>\<open>normalizeBaseId\<close>: a value that is not a string gives the empty string (here \<open>None\<close> is
  such a value), a string is trimmed. \<open>isSpace\<close> lists the ASCII white space that
  \<^verbatim>\<open>String.prototype.trim\<close> removes; the white space beyond ASCII that it removes as well
  (no-break space, byte order mark, the Unicode spaces) is not modelled, and the properties
  below are stated in terms of \<open>normalizeBaseId\<close>, whatever it removes.
\<close>

definition isSpace :: "char \<Rightarrow> bool" where
  "isSpace c = (c \<in> set [CHR '' '', CHR 0x09, CHR 0x0A, CHR 0x0B, CHR 0x0C, CHR 0x0D])"

definition trim :: "string \<Rightarrow> string" where
  "trim s = rev (dropWhile isSpace (rev (dropWhile isSpace s)))"

definition normalizeBaseId :: "string option \<Rightarrow> string" where
  "normalizeBaseId v = (case v of None \<Rightarrow> [] | Some s \<Rightarrow> trim s)"

section \<open>Subscription store\<close>

text \<open>A redeem-code record: \<^verbatim>\<open>{ codeHash, durationMs, usedAt, usedBy }\<close>. \<open>durationMs\<close> is
  \<open>None\<close> when the record has no number there.\<close>

record redeemCode =
  codeHash :: string
  durationMs :: "int option"
  usedAt :: int
  usedBy :: string

text \<open>
  A tier as it is configured or persisted, before \<^verbatim>\<open>normalizeTieredPrices\<close>: each field is
  \<open>Some x\<close> when \<^verbatim>\<open>Number(item.field)\<close> is the finite number \<open>x\<close>.
\<close>

record rawTier =
  r_upToMinutes :: "rat option"
  r_upToHours :: "rat option"
  r_upTo :: "rat option"
  r_unitPrice :: "rat option"
  r_unitPricePerMinute :: "rat option"
  r_unitPricePerHour :: "rat option"

text \<open>
  A pricing override as stored: the label is empty when missing, \<open>tieredPrices\<close> is \<open>None\<close>
  when missing, and an item of the list that is not an object is \<open>None\<close>.
\<close>

record pricing =
  planPriceById :: "string \<rightharpoonup> rat"
  modelUnitPrice :: "rat option"
  modelUnitLabel :: string
  tieredPrices :: "rawTier option list option"

record usageEntry =
  u_count :: "rat option"
  u_minutes :: "rat option"
  u_cost :: "rat option"

record dailyEntry =
  d_minutes :: "rat option"
  d_cost :: "rat option"

text \<open>
  The object handed to \<^verbatim>\<open>onPersist\<close>: each store fills its own three fields and leaves
  the others \<^verbatim>\<open>undefined\<close>. A calendar day (the key \<^verbatim>\<open>YYYY-MM-DD\<close>) is the number of the
  UTC day since the epoch.
\<close>

record snapshot =
  paidUntilByBaseId :: "(string \<rightharpoonup> int) option"
  adminBaseIdList :: "string list option"
  redeemCodes :: "redeemCode list option"
  pricingByBaseId :: "(string \<rightharpoonup> pricing) option"
  usageByBaseId :: "(string \<rightharpoonup> usageEntry) option"
  dailyUsageByBaseId :: "(string \<rightharpoonup> (int \<rightharpoonup> dailyEntry)) option"

text \<open>
  The arguments of \<^verbatim>\<open>createSubscriptionStore\<close> that never change, with the SHA-256 digest
  of \<^verbatim>\<open>node:crypto\<close> behind \<^verbatim>\<open>hashCode\<close> as a parameter.
\<close>

record config =
  trialLimit :: int
  paidBaseIds :: "string set"
  allowBypass :: bool
  hashCode :: "string \<Rightarrow> string"

text \<open>
  The closure's variables. \<open>paidUntilMap\<close> holds the text \<^verbatim>\<open>String(until)\<close>, here the integer
  \<open>until\<close> that the text is written from; \<open>getPaidUntil\<close> reads it back with
  \<^verbatim>\<open>Number.parseInt(until, 10)\<close>, which is \<open>parseIntString\<close> below.
  \<open>adminSet\<close> is a JavaScript \<^verbatim>\<open>Set\<close>: distinct keys in insertion order. \<open>persisted\<close> records the
  calls of \<^verbatim>\<open>onPersist\<close>, the latest first.
\<close>

record subscriptionStore =
  usage :: "string \<rightharpoonup> int"
  paidUntilMap :: "string \<rightharpoonup> int"
  adminSet :: "string list"
  redeemList :: "redeemCode list"
  persisted :: "snapshot list"

definition setAdd :: "'a \<Rightarrow> 'a list \<Rightarrow> 'a list" where
  "setAdd x xs = (if x \<in> set xs then xs else xs @ [x])"

definition createSubscriptionStore ::
  "(string \<rightharpoonup> int) \<Rightarrow> string list \<Rightarrow> redeemCode list \<Rightarrow> subscriptionStore" where
  "createSubscriptionStore paidUntils adminBaseIds codes =
     \<lparr>usage = Map.empty,
      paidUntilMap = paidUntils,
      adminSet = foldl (\<lambda>acc x. setAdd x acc) [] adminBaseIds,
      redeemList = codes,
      persisted = []\<rparr>"

datatype statusMessage =
  MissingBaseId | BypassAllowed | AdminFree | Activated | TrialLeft int | TrialUsedUp

record status =
  baseId :: string
  isPaid :: bool
  freeRemaining :: int
  allowed :: bool
  message :: statusMessage
  paidUntil :: "int option"

definition MAX_SAFE_INTEGER :: int where
  "MAX_SAFE_INTEGER = 9007199254740991"

text \<open>
  \<^verbatim>\<open>Number.parseInt(String(n), 10)\<close> for an integer \<open>n\<close>: below \<open>10^21\<close> in magnitude
  \<^verbatim>\<open>String(n)\<close> is the decimal numeral of \<open>n\<close> and is read back whole; from \<open>10^21\<close> on it is
  in exponent notation (\<^verbatim>\<open>"1e+21"\<close>, \<^verbatim>\<open>"1.5e+21"\<close>) and \<^verbatim>\<open>parseInt\<close> stops at the \<^verbatim>\<open>.\<close> or the
  \<^verbatim>\<open>e\<close>, so that only the sign and the leading digit are read.
\<close>

fun leadingDigit :: "nat \<Rightarrow> nat" where
  "leadingDigit n = (if n < 10 then n else leadingDigit (n div 10))"

declare leadingDigit.simps [simp del]

definition parseIntString :: "int \<Rightarrow> int" where
  "parseIntString n =
     (if \<bar>n\<bar> < 10 ^ 21 then n else sgn n * int (leadingDigit (nat \<bar>n\<bar>)))"

text \<open>\<^verbatim>\<open>Number.isSafeInteger\<close>: the integers on which the arithmetic of the code is exact.\<close>

definition isSafeInteger :: "int \<Rightarrow> bool" where
  "isSafeInteger n = (\<bar>n\<bar> \<le> MAX_SAFE_INTEGER)"

definition getPaidUntil :: "subscriptionStore \<Rightarrow> string \<Rightarrow> int" where
  "getPaidUntil st b =
     (case paidUntilMap st b of None \<Rightarrow> 0 | Some until \<Rightarrow> parseIntString until)"

definition onPersist :: "subscriptionStore \<Rightarrow> subscriptionStore" where
  "onPersist st =
     st\<lparr>persisted :=
          \<lparr>paidUntilByBaseId = Some (paidUntilMap st),
           adminBaseIdList = Some (adminSet st),
           redeemCodes = Some (redeemList st),
           pricingByBaseId = None, usageByBaseId = None, dailyUsageByBaseId = None\<rparr>
          # persisted st\<rparr>"

definition setPaidUntil :: "subscriptionStore \<Rightarrow> string \<Rightarrow> int \<Rightarrow> subscriptionStore" where
  "setPaidUntil st b until =
     (if b = [] then st
      else onPersist (st\<lparr>paidUntilMap := (paidUntilMap st)(b \<mapsto> until)\<rparr>))"

definition setAdmin :: "subscriptionStore \<Rightarrow> string option \<Rightarrow> bool \<Rightarrow> bool \<times> subscriptionStore" where
  "setAdmin st rawBaseId enabled =
     (let normalized = normalizeBaseId rawBaseId in
      if normalized = [] then (False, st)
      else (True,
            onPersist (st\<lparr>adminSet :=
              (if enabled then setAdd normalized (adminSet st)
               else removeAll normalized (adminSet st))\<rparr>)))"

text \<open>\<^verbatim>\<open>!durationMs\<close>: a missing number and zero are falsy, every other number is truthy.\<close>

definition truthy :: "int option \<Rightarrow> bool" where
  "truthy d = (case d of None \<Rightarrow> False | Some n \<Rightarrow> n \<noteq> 0)"

definition addRedeemCode ::
  "config \<Rightarrow> subscriptionStore \<Rightarrow> string \<Rightarrow> int option \<Rightarrow> bool \<times> subscriptionStore" where
  "addRedeemCode cfg st code d =
     (if code = [] \<or> \<not> truthy d then (False, st)
      else (True,
            onPersist (st\<lparr>redeemList := redeemList st @
              [\<lparr>codeHash = hashCode cfg code, durationMs = d, usedAt = 0, usedBy = []\<rparr>]\<rparr>)))"

text \<open>
  \<^verbatim>\<open>activatePlan({ baseId, durationMs, paidAt })\<close> at clock reading \<open>now\<close>:
  \<^verbatim>\<open>Math.max(Date.now(), paidAt || Date.now(), getPaidUntil(normalized)) + durationMs\<close>.
  \<open>orNow\<close> is \<^verbatim>\<open>paidAt || Date.now()\<close>; the call returns \<^verbatim>\<open>null\<close> on a blank tenant and on a
  falsy duration (missing or zero).
\<close>

definition orNow :: "int option \<Rightarrow> int \<Rightarrow> int" where
  "orNow paidAt now = (case paidAt of None \<Rightarrow> now | Some p \<Rightarrow> if p = 0 then now else p)"

definition activatePlan ::
  "subscriptionStore \<Rightarrow> int \<Rightarrow> string option \<Rightarrow> int option \<Rightarrow> int option
     \<Rightarrow> int option \<times> subscriptionStore" where
  "activatePlan st now rawBaseId d paidAt =
     (let normalized = normalizeBaseId rawBaseId in
      case d of
        None \<Rightarrow> (None, st)
      | Some dur \<Rightarrow>
          if normalized = [] \<or> dur = 0 then (None, st)
          else
            let start = max now (max (orNow paidAt now) (getPaidUntil st normalized));
                nextUntil = start + dur
            in (Some nextUntil, setPaidUntil st normalized nextUntil))"

datatype redeemError = MissingInput | InvalidCode | AlreadyUsed

datatype redeemResult = RedeemFailed redeemError | RedeemOk "int option"

text \<open>\<^verbatim>\<open>redeemList.find(...)\<close>, with the position of the record found, since \<^verbatim>\<open>redeem\<close>
  then writes to that record in place.\<close>

fun findFirst :: "('a \<Rightarrow> bool) \<Rightarrow> 'a list \<Rightarrow> (nat \<times> 'a) option" where
  "findFirst P [] = None"
| "findFirst P (x # xs) =
     (if P x then Some (0, x)
      else case findFirst P xs of None \<Rightarrow> None | Some (i, y) \<Rightarrow> Some (Suc i, y))"

definition redeem ::
  "config \<Rightarrow> subscriptionStore \<Rightarrow> int \<Rightarrow> string option \<Rightarrow> string
     \<Rightarrow> redeemResult \<times> subscriptionStore" where
  "redeem cfg st now rawBaseId code =
     (let normalized = normalizeBaseId rawBaseId in
      if normalized = [] \<or> code = [] then (RedeemFailed MissingInput, st)
      else
        case findFirst (\<lambda>x. codeHash x = hashCode cfg code) (redeemList st) of
          None \<Rightarrow> (RedeemFailed InvalidCode, st)
        | Some (i, item) \<Rightarrow>
            if usedAt item \<noteq> 0 \<and> usedBy item \<noteq> [] then (RedeemFailed AlreadyUsed, st)
            else
              let activated = activatePlan st now (Some normalized) (durationMs item) (Some now);
                  st1 = snd activated
              in (RedeemOk (fst activated),
                  onPersist (st1\<lparr>redeemList :=
                    (redeemList st1)[i := item\<lparr>usedAt := now, usedBy := normalized\<rparr>]\<rparr>)))"

text \<open>
  \<^verbatim>\<open>mergeRedeemCodes\<close>, which builds the code list at start-up from the persisted records
  and the seed codes: a \<^verbatim>\<open>Map\<close> keyed by digest, so a digest keeps the place of its first
  record and the fields of its last. An item that is \<^verbatim>\<open>null\<close> (here \<open>None\<close>) or has an empty
  digest is skipped; \<^verbatim>\<open>durationMs\<close> is copied as it is.
\<close>

fun mapSet :: "(string \<times> redeemCode) list \<Rightarrow> string \<Rightarrow> redeemCode \<Rightarrow> (string \<times> redeemCode) list" where
  "mapSet [] k v = [(k, v)]"
| "mapSet ((k', v') # m) k v = (if k' = k then (k, v) # m else (k', v') # mapSet m k v)"

definition mergeRedeemCodes ::
  "redeemCode option list \<Rightarrow> redeemCode option list \<Rightarrow> redeemCode list" where
  "mergeRedeemCodes baseList extraList =
     map snd
       (foldl (\<lambda>m item.
                 case item of
                   None \<Rightarrow> m
                 | Some it \<Rightarrow> if codeHash it = [] then m else mapSet m (codeHash it) it)
              [] (baseList @ extraList))"

record paidInfo =
  paid :: bool
  pi_paidUntil :: int
  admin :: bool

definition isPaid_info :: "config \<Rightarrow> subscriptionStore \<Rightarrow> int \<Rightarrow> string \<Rightarrow> paidInfo" where
  "isPaid_info cfg st now b =
     (if b \<in> set (adminSet st) then \<lparr>paid = True, pi_paidUntil = MAX_SAFE_INTEGER, admin = True\<rparr>
      else if b \<in> paidBaseIds cfg then
        \<lparr>paid = True, pi_paidUntil = MAX_SAFE_INTEGER, admin = False\<rparr>
      else
        let until = getPaidUntil st b in
        if until = 0 then \<lparr>paid = False, pi_paidUntil = 0, admin = False\<rparr>
        else if now \<le> until then \<lparr>paid = True, pi_paidUntil = until, admin = False\<rparr>
        else \<lparr>paid = False, pi_paidUntil = until, admin = False\<rparr>)"

definition getFreeRemaining :: "config \<Rightarrow> subscriptionStore \<Rightarrow> string \<Rightarrow> int" where
  "getFreeRemaining cfg st b =
     (let used = (case usage st b of None \<Rightarrow> 0 | Some n \<Rightarrow> n)
      in max 0 (trialLimit cfg - used))"

definition getStatus :: "config \<Rightarrow> subscriptionStore \<Rightarrow> int \<Rightarrow> string option \<Rightarrow> status" where
  "getStatus cfg st now rawBaseId =
     (let b = normalizeBaseId rawBaseId in
      if b = [] then
        \<lparr>baseId = b, isPaid = False, freeRemaining = 0, allowed = False,
         message = MissingBaseId, paidUntil = None\<rparr>
      else if allowBypass cfg then
        \<lparr>baseId = b, isPaid = True, freeRemaining = trialLimit cfg, allowed = True,
         message = BypassAllowed, paidUntil = Some MAX_SAFE_INTEGER\<rparr>
      else
        let info = isPaid_info cfg st now b in
        if paid info then
          \<lparr>baseId = b, isPaid = True, freeRemaining = trialLimit cfg, allowed = True,
           message = (if admin info then AdminFree else Activated),
           paidUntil = Some (pi_paidUntil info)\<rparr>
        else
          let remaining = getFreeRemaining cfg st b in
          \<lparr>baseId = b, isPaid = False, freeRemaining = remaining, allowed = (remaining > 0),
           message = (if remaining > 0 then TrialLeft remaining else TrialUsedUp),
           paidUntil = Some (pi_paidUntil info)\<rparr>)"

definition consume ::
  "config \<Rightarrow> subscriptionStore \<Rightarrow> int \<Rightarrow> string option \<Rightarrow> status \<times> subscriptionStore" where
  "consume cfg st now rawBaseId =
     (let b = normalizeBaseId rawBaseId in
      if b = [] then
        (\<lparr>baseId = b, isPaid = False, freeRemaining = 0, allowed = False,
          message = MissingBaseId, paidUntil = None\<rparr>, st)
      else if allowBypass cfg then
        (\<lparr>baseId = b, isPaid = True, freeRemaining = trialLimit cfg, allowed = True,
          message = BypassAllowed, paidUntil = Some MAX_SAFE_INTEGER\<rparr>, st)
      else
        let info = isPaid_info cfg st now b in
        if paid info then
          (\<lparr>baseId = b, isPaid = True, freeRemaining = trialLimit cfg, allowed = True,
            message = (if admin info then AdminFree else Activated),
            paidUntil = Some (pi_paidUntil info)\<rparr>, st)
        else if getFreeRemaining cfg st b \<le> 0 then
          (\<lparr>baseId = b, isPaid = False, freeRemaining = 0, allowed = False,
            message = TrialUsedUp, paidUntil = Some (pi_paidUntil info)\<rparr>, st)
        else
          let st1 = st\<lparr>usage := (usage st)(b \<mapsto> (case usage st b of None \<Rightarrow> 0 | Some n \<Rightarrow> n) + 1)\<rparr>;
              nextRemaining = getFreeRemaining cfg st1 b
          in (\<lparr>baseId = b, isPaid = False, freeRemaining = nextRemaining, allowed = True,
               message = (if nextRemaining > 0 then TrialLeft nextRemaining else TrialUsedUp),
               paidUntil = Some (pi_paidUntil info)\<rparr>, st1))"

subsection \<open>Order finalisation\<close>

text \<open>
  \<^verbatim>\<open>billingPlans\<close> of \<^verbatim>\<open>config/constants.js\<close> (identifier, price, duration;
  the labels are left out) and \<^verbatim>\<open>finalizePaidOrder\<close> of the billing service, which
  activates the plan of an order and marks the order paid.
\<close>

record plan =
  plan_id :: string
  plan_price :: rat
  plan_durationMs :: int

definition billingPlans :: "plan list" where
  "billingPlans =
     [\<lparr>plan_id = ''monthly'', plan_price = 99 / 10, plan_durationMs = 30 * 24 * 60 * 60 * 1000\<rparr>,
      \<lparr>plan_id = ''quarterly'', plan_price = 199 / 10, plan_durationMs = 90 * 24 * 60 * 60 * 1000\<rparr>,
      \<lparr>plan_id = ''halfyear'', plan_price = 499 / 10, plan_durationMs = 180 * 24 * 60 * 60 * 1000\<rparr>]"

record order =
  o_baseId :: string
  o_planId :: string
  o_price :: rat
  o_status :: string
  o_createdAt :: int
  o_paidAt :: "int option"
  o_paidUntil :: "int option"

datatype finalizeResult = OrderNotFound | PlanInvalid | Finalized "int option"

definition finalizePaidOrder ::
  "(string \<rightharpoonup> order) \<Rightarrow> subscriptionStore \<Rightarrow> int \<Rightarrow> string \<Rightarrow> int option
     \<Rightarrow> finalizeResult \<times> (string \<rightharpoonup> order) \<times> subscriptionStore" where
  "finalizePaidOrder billingOrders st now orderId paidAt =
     (case billingOrders orderId of
        None \<Rightarrow> (OrderNotFound, billingOrders, st)
      | Some ord \<Rightarrow>
          (case find (\<lambda>item. plan_id item = o_planId ord) billingPlans of
             None \<Rightarrow> (PlanInvalid, billingOrders, st)
           | Some pl \<Rightarrow>
               let activated = activatePlan st now (Some (o_baseId ord)) (Some (plan_durationMs pl))
                                 (Some (orNow paidAt now))
               in (Finalized (fst activated),
                   billingOrders(orderId \<mapsto>
                     ord\<lparr>o_status := ''paid'', o_paidAt := Some (orNow paidAt now),
                         o_paidUntil := fst activated\<rparr>),
                   snd activated)))"

subsection \<open>Sequences of calls\<close>

text \<open>A call of one of the store's methods, and a history of calls, each with the clock
  reading at which it is made.\<close>

datatype call =
  GetStatus "string option"
| Consume "string option"
| ActivatePlan "string option" "int option" "int option"
| SetAdmin "string option" bool
| AddRedeemCode string "int option"
| Redeem "string option" string

fun perform :: "config \<Rightarrow> subscriptionStore \<Rightarrow> int \<times> call \<Rightarrow> subscriptionStore" where
  "perform cfg st (now, GetStatus b) = st"
| "perform cfg st (now, Consume b) = snd (consume cfg st now b)"
| "perform cfg st (now, ActivatePlan b d paidAt) = snd (activatePlan st now b d paidAt)"
| "perform cfg st (now, SetAdmin b enabled) = snd (setAdmin st b enabled)"
| "perform cfg st (now, AddRedeemCode code d) = snd (addRedeemCode cfg st code d)"
| "perform cfg st (now, Redeem b code) = snd (redeem cfg st now b code)"

definition performAll :: "config \<Rightarrow> subscriptionStore \<Rightarrow> (int \<times> call) list \<Rightarrow> subscriptionStore" where
  "performAll cfg st calls = foldl (perform cfg) st calls"

text \<open>The statuses that the \<^verbatim>\<open>getStatus\<close> and \<^verbatim>\<open>consume\<close> calls of a history return, in
  order.\<close>

fun statuses :: "config \<Rightarrow> subscriptionStore \<Rightarrow> (int \<times> call) list \<Rightarrow> status list" where
  "statuses cfg st [] = []"
| "statuses cfg st ((now, GetStatus b) # cs) =
     getStatus cfg st now b # statuses cfg st cs"
| "statuses cfg st ((now, Consume b) # cs) =
     fst (consume cfg st now b) # statuses cfg (snd (consume cfg st now b)) cs"
| "statuses cfg st (c # cs) = statuses cfg (perform cfg st c) cs"

section \<open>Billing store\<close>

record defaultPricing =
  dp_modelUnitPrice :: rat
  dp_modelUnitLabel :: string
  dp_tieredPrices :: "rawTier option list option"

record pricingProfile =
  pp_planPriceById :: "string \<rightharpoonup> rat"
  pp_modelUnitPrice :: rat
  pp_modelUnitLabel :: string
  pp_tieredPrices :: "tier list"

record billingStore =
  pricingMap :: "string \<rightharpoonup> pricing"
  usageMap :: "string \<rightharpoonup> usageEntry"
  dailyUsageMap :: "string \<rightharpoonup> (int \<rightharpoonup> dailyEntry)"
  billingPersisted :: "snapshot list"

text \<open>\<^verbatim>\<open>new Date(timestamp).toISOString().slice(0, 10)\<close>: the UTC day of a timestamp.\<close>

definition getDateKey :: "int \<Rightarrow> int" where
  "getDateKey timestamp = timestamp div 86400000"

text \<open>The callback of \<^verbatim>\<open>normalizeTieredPrices\<close>'s \<^verbatim>\<open>map\<close>; \<open>None\<close> is what
  \<^verbatim>\<open>filter(Boolean)\<close> drops.\<close>

definition normalizeTier :: "rat \<Rightarrow> rawTier option \<Rightarrow> tier option" where
  "normalizeTier fallbackPrice item =
     (case item of
        None \<Rightarrow> None
      | Some it \<Rightarrow>
          let upTo = (case r_upToMinutes it of
                        Some m \<Rightarrow> Fin m
                      | None \<Rightarrow> (case r_upToHours it of
                                  Some h \<Rightarrow> Fin (h * 60)
                                | None \<Rightarrow> (case r_upTo it of
                                            Some u \<Rightarrow> Fin u
                                          | None \<Rightarrow> PosInf)));
              price = (case r_unitPrice it of
                         Some q \<Rightarrow> q
                       | None \<Rightarrow> (case r_unitPricePerMinute it of
                                    Some q \<Rightarrow> q
                                  | None \<Rightarrow> (case r_unitPricePerHour it of
                                              Some q \<Rightarrow> q / 60
                                            | None \<Rightarrow> fallbackPrice)))
          in if price < 0 then None else Some \<lparr>upToMinutes = upTo, unitPrice = price\<rparr>)"

text \<open>The comparator of the sort, as "comes no later than", and the stable sort it drives.\<close>

fun boundLe :: "bound \<Rightarrow> bound \<Rightarrow> bool" where
  "boundLe (Fin a) (Fin b) = (a \<le> b)"
| "boundLe (Fin a) PosInf = True"
| "boundLe PosInf (Fin b) = False"
| "boundLe PosInf PosInf = True"

fun insertTier :: "tier \<Rightarrow> tier list \<Rightarrow> tier list" where
  "insertTier t [] = [t]"
| "insertTier t (u # us) =
     (if boundLe (upToMinutes t) (upToMinutes u) then t # u # us else u # insertTier t us)"

definition sortTiers :: "tier list \<Rightarrow> tier list" where
  "sortTiers ts = foldr insertTier ts []"

definition normalizeTieredPrices :: "rawTier option list option \<Rightarrow> rat \<Rightarrow> tier list" where
  "normalizeTieredPrices raw fallbackPrice =
     (case raw of
        None \<Rightarrow> []
      | Some items \<Rightarrow> sortTiers (List.map_filter (normalizeTier fallbackPrice) items))"

definition normalizePricing :: "defaultPricing \<Rightarrow> pricing \<Rightarrow> pricingProfile" where
  "normalizePricing dp p =
     (let fallbackUnitPrice = (case modelUnitPrice p of Some m \<Rightarrow> m | None \<Rightarrow> dp_modelUnitPrice dp)
      in \<lparr>pp_planPriceById = planPriceById p,
          pp_modelUnitPrice = fallbackUnitPrice,
          pp_modelUnitLabel = (if modelUnitLabel p \<noteq> [] then modelUnitLabel p else dp_modelUnitLabel dp),
          pp_tieredPrices =
            normalizeTieredPrices
              (case tieredPrices p of Some ts \<Rightarrow> Some ts | None \<Rightarrow> dp_tieredPrices dp)
              fallbackUnitPrice\<rparr>)"

definition emptyPricing :: pricing where
  "emptyPricing =
     \<lparr>planPriceById = Map.empty, modelUnitPrice = None, modelUnitLabel = [], tieredPrices = None\<rparr>"

definition getPricing :: "defaultPricing \<Rightarrow> billingStore \<Rightarrow> string \<Rightarrow> pricingProfile" where
  "getPricing dp st b =
     (if b = [] then normalizePricing dp emptyPricing
      else normalizePricing dp (case pricingMap st b of None \<Rightarrow> emptyPricing | Some p \<Rightarrow> p))"

record usageView =
  uv_count :: rat
  uv_minutes :: "rat option"
  uv_cost :: rat

definition orZero :: "rat option \<Rightarrow> rat" where
  "orZero x = (case x of None \<Rightarrow> 0 | Some v \<Rightarrow> v)"

definition getUsage :: "billingStore \<Rightarrow> string option \<Rightarrow> usageView" where
  "getUsage st rawBaseId =
     (let normalized = normalizeBaseId rawBaseId in
      if normalized = [] then \<lparr>uv_count = 0, uv_minutes = None, uv_cost = 0\<rparr>
      else
        case usageMap st normalized of
          None \<Rightarrow> \<lparr>uv_count = 0, uv_minutes = Some 0, uv_cost = 0\<rparr>
        | Some u \<Rightarrow>
            let c = (case u_count u of Some n \<Rightarrow> n | None \<Rightarrow> orZero (u_minutes u))
            in \<lparr>uv_count = c, uv_minutes = Some c, uv_cost = orZero (u_cost u)\<rparr>)"

record dailyView =
  dv_date :: int
  dv_minutes :: rat
  dv_cost :: rat

definition getDailyUsage :: "billingStore \<Rightarrow> string option \<Rightarrow> int \<Rightarrow> dailyView" where
  "getDailyUsage st rawBaseId dateKey =
     (let normalized = normalizeBaseId rawBaseId in
      if normalized = [] then \<lparr>dv_date = dateKey, dv_minutes = 0, dv_cost = 0\<rparr>
      else
        let dailyByDate = (case dailyUsageMap st normalized of None \<Rightarrow> Map.empty | Some m \<Rightarrow> m)
        in case dailyByDate dateKey of
             None \<Rightarrow> \<lparr>dv_date = dateKey, dv_minutes = 0, dv_cost = 0\<rparr>
           | Some daily \<Rightarrow>
               \<lparr>dv_date = dateKey, dv_minutes = orZero (d_minutes daily),
                dv_cost = orZero (d_cost daily)\<rparr>)"

text \<open>\<^verbatim>\<open>Number(x.toFixed(4))\<close>: the nearest multiple of 0.0001, a tie going away from zero.
  The code applies it to a double, which can lie just off a tie that the exact amount
  hits.\<close>

definition toFixed4 :: "rat \<Rightarrow> rat" where
  "toFixed4 x =
     (if x < 0 then - (of_int \<lfloor>- x * 10000 + 1 / 2\<rfloor> / 10000)
      else of_int \<lfloor>x * 10000 + 1 / 2\<rfloor> / 10000)"

text \<open>The minutes of a usage event: explicit minutes, else the duration rounded up to whole
  minutes and at least one, else the unit count, else one.\<close>

definition resolveMinutes :: "rat option \<Rightarrow> rat option \<Rightarrow> rat option \<Rightarrow> rat" where
  "resolveMinutes mins dur units =
     (if (case mins of Some m \<Rightarrow> m > 0 | None \<Rightarrow> False) then orZero mins
      else if (case dur of Some d \<Rightarrow> d > 0 | None \<Rightarrow> False)
        then max 1 (of_int \<lceil>orZero dur / 60000\<rceil>)
      else if (case units of Some u \<Rightarrow> u > 0 | None \<Rightarrow> False) then orZero units
      else 1)"

record receipt =
  rc_count :: rat
  rc_minutes :: rat
  rc_cost :: rat
  rc_dailyMinutes :: rat
  rc_dailyCost :: rat
  rc_unitPrice :: rat
  rc_unitLabel :: string

datatype recordResult = NoTenant | Recorded receipt

definition billingOnPersist :: "billingStore \<Rightarrow> billingStore" where
  "billingOnPersist st =
     st\<lparr>billingPersisted :=
          \<lparr>paidUntilByBaseId = None, adminBaseIdList = None, redeemCodes = None,
           pricingByBaseId = Some (pricingMap st),
           usageByBaseId = Some (usageMap st),
           dailyUsageByBaseId = Some (dailyUsageMap st)\<rparr>
          # billingPersisted st\<rparr>"

text \<open>
  \<^verbatim>\<open>recordUsage({ baseId, units = 1, minutes, durationMs, occurredAt })\<close> at clock reading
  \<open>now\<close>. \<open>NoTenant\<close> is the result \<^verbatim>\<open>{ count: 0, cost: 0 }\<close> of a blank tenant.
\<close>

definition recordUsage ::
  "defaultPricing \<Rightarrow> billingStore \<Rightarrow> int \<Rightarrow> string option \<Rightarrow> rat option \<Rightarrow> rat option
     \<Rightarrow> rat option \<Rightarrow> int option \<Rightarrow> recordResult \<times> billingStore" where
  "recordUsage dp st now rawBaseId units mins dur occurredAt =
     (let normalized = normalizeBaseId rawBaseId in
      if normalized = [] then (NoTenant, st)
      else
        let pr = getPricing dp st normalized;
            prev = getUsage st (Some normalized);
            resolvedMinutes = resolveMinutes mins dur (case units of None \<Rightarrow> Some 1 | Some u \<Rightarrow> Some u);
            dateKey = getDateKey (case occurredAt of Some t \<Rightarrow> t | None \<Rightarrow> now);
            dailyPrev = getDailyUsage st (Some normalized) dateKey;
            dailyCostDelta =
              calculateTieredCost (pp_tieredPrices pr) (dv_minutes dailyPrev) resolvedMinutes
                (pp_modelUnitPrice pr);
            nextDailyMinutes = dv_minutes dailyPrev + resolvedMinutes;
            nextDailyCost = toFixed4 (dv_cost dailyPrev + dailyCostDelta);
            dailyByDate = (case dailyUsageMap st normalized of None \<Rightarrow> Map.empty | Some m \<Rightarrow> m);
            nextCount = uv_count prev + resolvedMinutes;
            nextCost = toFixed4 (uv_cost prev + dailyCostDelta);
            st1 = st\<lparr>dailyUsageMap := (dailyUsageMap st)(normalized \<mapsto>
                        dailyByDate(dateKey \<mapsto>
                          \<lparr>d_minutes = Some nextDailyMinutes, d_cost = Some nextDailyCost\<rparr>)),
                      usageMap := (usageMap st)(normalized \<mapsto>
                        \<lparr>u_count = Some nextCount, u_minutes = Some nextCount,
                         u_cost = Some nextCost\<rparr>)\<rparr>
        in (Recorded
              \<lparr>rc_count = nextCount, rc_minutes = nextCount, rc_cost = nextCost,
               rc_dailyMinutes = nextDailyMinutes, rc_dailyCost = nextDailyCost,
               rc_unitPrice =
                 resolveCurrentTierUnitPrice (pp_tieredPrices pr) nextDailyMinutes
                   (pp_modelUnitPrice pr),
               rc_unitLabel = pp_modelUnitLabel pr\<rparr>,
            billingOnPersist st1))"

definition createBillingStore ::
  "(string \<rightharpoonup> pricing) \<Rightarrow> (string \<rightharpoonup> usageEntry) \<Rightarrow> (string \<rightharpoonup> (int \<rightharpoonup> dailyEntry)) \<Rightarrow> billingStore" where
  "createBillingStore pricings usages dailies =
     \<lparr>pricingMap = pricings, usageMap = usages, dailyUsageMap = dailies, billingPersisted = []\<rparr>"

section \<open>Usage charge bridge\<close>

text \<open>
  An entry of \<^verbatim>\<open>billingTasks\<close>. The task-submission controller registers a task only when
  the tenant key and the task identifier are not empty, with \<^verbatim>\<open>charged: false\<close> and the
  announced duration when it is a finite number.
\<close>

record pendingTask =
  t_baseId :: "string option"
  charged :: bool
  t_durationMs :: "rat option"

definition registerTask ::
  "(string \<rightharpoonup> pendingTask) \<Rightarrow> string \<Rightarrow> string option \<Rightarrow> rat option
     \<Rightarrow> (string \<rightharpoonup> pendingTask)" where
  "registerTask billingTasks taskId rawBaseId dur =
     (let normalizedBaseId = normalizeBaseId rawBaseId in
      if normalizedBaseId \<noteq> [] \<and> taskId \<noteq> [] then
        billingTasks(taskId \<mapsto>
          \<lparr>t_baseId = Some normalizedBaseId, charged = False, t_durationMs = dur\<rparr>)
      else billingTasks)"

definition positive :: "rat option \<Rightarrow> bool" where
  "positive x = (case x of Some v \<Rightarrow> v > 0 | None \<Rightarrow> False)"

text \<open>The function that \<^verbatim>\<open>createUsageRecorder({ billingTasks, billingStore })\<close> returns, over
  the task map and the billing store it closes over.\<close>

definition createUsageRecorder ::
  "defaultPricing \<Rightarrow> (string \<rightharpoonup> pendingTask) \<Rightarrow> billingStore \<Rightarrow> int \<Rightarrow> string \<Rightarrow> rat option
     \<Rightarrow> recordResult option \<times> (string \<rightharpoonup> pendingTask) \<times> billingStore" where
  "createUsageRecorder dp billingTasks st now taskId dur =
     (if taskId = [] then (None, billingTasks, st)
      else
        case billingTasks taskId of
          None \<Rightarrow> (None, billingTasks, st)
        | Some cached \<Rightarrow>
            if charged cached then (None, billingTasks, st)
            else
              let normalized = normalizeBaseId (t_baseId cached) in
              if normalized = [] then (None, billingTasks(taskId := None), st)
              else
                let resolvedDurationMs =
                      (if positive (t_durationMs cached) then t_durationMs cached
                       else if positive dur then dur
                       else None);
                    recorded = recordUsage dp st now (Some normalized) None None resolvedDurationMs None
                in (Some (fst recorded), billingTasks(taskId := None), snd recorded))"

text \<open>A history of the bridge: registrations by the task-submission controller and
  charges, from an empty task map.\<close>

datatype bridgeCall =
  Register string "string option" "rat option"
| Charge string "rat option"

fun bridgeStep ::
  "defaultPricing \<Rightarrow> (string \<rightharpoonup> pendingTask) \<times> billingStore \<Rightarrow> int \<times> bridgeCall
     \<Rightarrow> (string \<rightharpoonup> pendingTask) \<times> billingStore" where
  "bridgeStep dp (billingTasks, st) (now, Register taskId rawBaseId dur) =
     (registerTask billingTasks taskId rawBaseId dur, st)"
| "bridgeStep dp (billingTasks, st) (now, Charge taskId dur) =
     snd (createUsageRecorder dp billingTasks st now taskId dur)"

definition bridgeRun ::
  "defaultPricing \<Rightarrow> billingStore \<Rightarrow> (int \<times> bridgeCall) list
     \<Rightarrow> (string \<rightharpoonup> pendingTask) \<times> billingStore" where
  "bridgeRun dp st0 calls = foldl (bridgeStep dp) (Map.empty, st0) calls"

text \<open>What a registration guarantees of an entry: a task identifier and a tenant key
  that are not empty, and \<^verbatim>\<open>charged: false\<close>.\<close>

definition wellRegistered :: "string \<Rightarrow> pendingTask \<Rightarrow> bool" where
  "wellRegistered taskId t =
     (taskId \<noteq> [] \<and> \<not> charged t \<and> normalizeBaseId (t_baseId t) \<noteq> [])"

section \<open>Persistence sink\<close>

text \<open>
  \<^verbatim>\<open>createWriteStore(storePath, cache)\<close>: the cache that \<^verbatim>\<open>readStore\<close> built (all six
  fields present), and the payloads handed to the chain of writes, in call order. A payload
  is the JSON text of the cache at the time of the call; it is represented by that cache.
\<close>

record cache =
  c_paidUntilByBaseId :: "string \<rightharpoonup> int"
  c_adminBaseIdList :: "string list"
  c_redeemCodes :: "redeemCode list"
  c_pricingByBaseId :: "string \<rightharpoonup> pricing"
  c_usageByBaseId :: "string \<rightharpoonup> usageEntry"
  c_dailyUsageByBaseId :: "string \<rightharpoonup> (int \<rightharpoonup> dailyEntry)"

record sink =
  storePath :: string
  cached :: cache
  payloads :: "cache list"

text \<open>\<^verbatim>\<open>data.field ?? cache.field\<close>\<close>

definition coalesce :: "'a option \<Rightarrow> 'a \<Rightarrow> 'a" where
  "coalesce x d = (case x of None \<Rightarrow> d | Some v \<Rightarrow> v)"

definition writeStore :: "sink \<Rightarrow> snapshot \<Rightarrow> sink" where
  "writeStore sk data =
     (if storePath sk = [] then sk
      else
        let c = \<lparr>c_paidUntilByBaseId = coalesce (paidUntilByBaseId data) (c_paidUntilByBaseId (cached sk)),
                 c_adminBaseIdList = coalesce (adminBaseIdList data) (c_adminBaseIdList (cached sk)),
                 c_redeemCodes = coalesce (redeemCodes data) (c_redeemCodes (cached sk)),
                 c_pricingByBaseId = coalesce (pricingByBaseId data) (c_pricingByBaseId (cached sk)),
                 c_usageByBaseId = coalesce (usageByBaseId data) (c_usageByBaseId (cached sk)),
                 c_dailyUsageByBaseId =
                   coalesce (dailyUsageByBaseId data) (c_dailyUsageByBaseId (cached sk))\<rparr>
        in sk\<lparr>cached := c, payloads := payloads sk @ [c]\<rparr>)"

text \<open>
  The part of \<^verbatim>\<open>initStores\<close> that builds the subscription store at start-up, from what
  \<^verbatim>\<open>readStore\<close> returns (the cache of the last write), the admin keys of the environment,
  the seed admin keys and the seed codes, each seed code standing for an unused record of
  thirty days.
\<close>

definition initStores ::
  "config \<Rightarrow> cache \<Rightarrow> string list \<Rightarrow> string list \<Rightarrow> string list \<Rightarrow> subscriptionStore" where
  "initStores cfg storeData adminBaseIds seedAdminBaseIds seedRedeemCodeList =
     (let seedRedeemCodes =
            map (\<lambda>code. Some \<lparr>codeHash = hashCode cfg code,
                                durationMs = Some (30 * 24 * 60 * 60 * 1000),
                                usedAt = 0, usedBy = []\<rparr>) seedRedeemCodeList;
          mergedRedeemCodes =
            mergeRedeemCodes (map Some (c_redeemCodes storeData)) seedRedeemCodes
      in createSubscriptionStore (c_paidUntilByBaseId storeData)
           (adminBaseIds @ c_adminBaseIdList storeData @ seedAdminBaseIds)
           mergedRedeemCodes)"

text \<open>The sink after the calls of \<^verbatim>\<open>onPersist\<close> that a subscription store has made, in the
  order of the calls.\<close>

definition persistAll :: "sink \<Rightarrow> subscriptionStore \<Rightarrow> sink" where
  "persistAll sk st = foldl writeStore sk (rev (persisted st))"

text \<open>The merge of one field as the specification words it: the snapshot's value when the
  field is present, the prior cached value when it is absent.\<close>

definition fieldMerged :: "'a option \<Rightarrow> 'a \<Rightarrow> 'a \<Rightarrow> bool" where
  "fieldMerged given prior result = (case given of Some v \<Rightarrow> result = v | None \<Rightarrow> result = prior)"

section \<open>Auxiliary notions and example stores\<close>

text \<open>The first record of the list with digest \<open>h\<close> is marked used: \<^verbatim>\<open>usedAt\<close> and
  \<^verbatim>\<open>usedBy\<close> are both truthy.\<close>

definition spent :: "string \<Rightarrow> subscriptionStore \<Rightarrow> bool" where
  "spent h st =
     (case findFirst (\<lambda>x. codeHash x = h) (redeemList st) of
        None \<Rightarrow> False
      | Some (i, item) \<Rightarrow> usedAt item \<noteq> 0 \<and> usedBy item \<noteq> [])"

text \<open>A configuration with one free use, as in the repository's tests; the digest is
  replaced by the identity in the examples.\<close>

definition trialConfig :: config where
  "trialConfig = \<lparr>trialLimit = 1, paidBaseIds = {}, allowBypass = False, hashCode = (\<lambda>s. s)\<rparr>"

definition freshStore :: subscriptionStore where
  "freshStore = createSubscriptionStore Map.empty [] []"

definition usedStore :: subscriptionStore where
  "usedStore = snd (consume trialConfig freshStore 5000 (Some ''t''))"

definition paidStore :: subscriptionStore where
  "paidStore = createSubscriptionStore [''t'' \<mapsto> 10000] [] []"

text \<open>An order of the monthly plan for the tenant of \<open>paidStore\<close>, not yet paid.\<close>

definition pendingOrders :: "string \<rightharpoonup> order" where
  "pendingOrders =
     [''o'' \<mapsto> \<lparr>o_baseId = ''t'', o_planId = ''monthly'', o_price = 99 / 10,
        o_status = ''pending'', o_createdAt = 4000, o_paidAt = None, o_paidUntil = None\<rparr>]"

text \<open>A store to which the same code has been added twice, and one whose only code record
  has no duration.\<close>

definition dupStore :: subscriptionStore where
  "dupStore =
     snd (addRedeemCode trialConfig
            (snd (addRedeemCode trialConfig freshStore ''X'' (Some 1000))) ''X'' (Some 1000))"

definition brokenStore :: subscriptionStore where
  "brokenStore =
     createSubscriptionStore Map.empty []
       [\<lparr>codeHash = ''X'', durationMs = None, usedAt = 0, usedBy = []\<rparr>]"

text \<open>The default pricing and the registered task of the repository's test of the usage
  recorder, an empty billing store, an empty cache and a snapshot with one field.\<close>

definition testPricing :: defaultPricing where
  "testPricing = \<lparr>dp_modelUnitPrice = 1 / 2, dp_modelUnitLabel = ''min'', dp_tieredPrices = None\<rparr>"

definition emptyBilling :: billingStore where
  "emptyBilling = createBillingStore Map.empty Map.empty Map.empty"

definition regTasks :: "string \<rightharpoonup> pendingTask" where
  "regTasks = registerTask Map.empty ''task-1'' (Some '' base-1 '') (Some 120000)"

definition emptyCache :: cache where
  "emptyCache = \<lparr>c_paidUntilByBaseId = Map.empty, c_adminBaseIdList = [], c_redeemCodes = [],
     c_pricingByBaseId = Map.empty, c_usageByBaseId = Map.empty, c_dailyUsageByBaseId = Map.empty\<rparr>"

definition adminOnly :: snapshot where
  "adminOnly = \<lparr>paidUntilByBaseId = None, adminBaseIdList = Some [''x''], redeemCodes = None,
     pricingByBaseId = None, usageByBaseId = None, dailyUsageByBaseId = None\<rparr>"

text \<open>
  The default pricing of the repository's test of tiered prices, with the tiers as they are
  configured (the unit label, Chinese text in the test, is \<open>min\<close> here), the instant of
  that test (2025-01-01T00:00:00Z) and the store after its first call, which leaves the daily
  cursor of the tenant at one minute.
\<close>

definition tierPricing :: defaultPricing where
  "tierPricing =
     \<lparr>dp_modelUnitPrice = 1 / 10, dp_modelUnitLabel = ''min'',
      dp_tieredPrices = Some
        [Some \<lparr>r_upToMinutes = Some 2, r_upToHours = None, r_upTo = None,
                r_unitPrice = Some (2 / 10), r_unitPricePerMinute = None, r_unitPricePerHour = None\<rparr>,
         Some \<lparr>r_upToMinutes = Some 5, r_upToHours = None, r_upTo = None,
                r_unitPrice = Some (1 / 10), r_unitPricePerMinute = None, r_unitPricePerHour = None\<rparr>,
         Some \<lparr>r_upToMinutes = None, r_upToHours = None, r_upTo = None,
                r_unitPrice = Some (5 / 100), r_unitPricePerMinute = None, r_unitPricePerHour = None\<rparr>]\<rparr>"

definition newYear :: int where
  "newYear = 1735689600000"

definition cursorStore :: billingStore where
  "cursorStore =
     snd (recordUsage tierPricing emptyBilling newYear (Some ''base-tier'') None (Some 1) None
            (Some newYear))"

text \<open>
  A store file, the store with the duplicated code after one redemption, and the store that
  the next start-up builds from the file.
\<close>

definition storeFile :: sink where
  "storeFile = \<lparr>storePath = ''store.json'', cached = emptyCache, payloads = []\<rparr>"

definition redeemedStore :: subscriptionStore where
  "redeemedStore = snd (redeem trialConfig dupStore 5000 (Some ''a'') ''X'')"

definition restartedStore :: subscriptionStore where
  "restartedStore = initStores trialConfig (cached (persistAll storeFile redeemedStore)) [] [] []"

text \<open>
  The same for a seed code: the store of a first start-up with one seed code and an empty
  file, that store after the code has been redeemed, and the store of the next start-up.
\<close>

definition seedStore :: subscriptionStore where
  "seedStore = initStores trialConfig emptyCache [] [] [''S'']"

definition seedRedeemedStore :: subscriptionStore where
  "seedRedeemedStore = snd (redeem trialConfig seedStore 5000 (Some ''a'') ''S'')"

definition seedRestartedStore :: subscriptionStore where
  "seedRestartedStore =
     initStores trialConfig (cached (persistAll storeFile seedRedeemedStore)) [] [] [''S'']"

section \<open>Properties of the tiered prices\<close>

lemma tierLoop_spec_walk:
  "tierLoop tiers remaining cost cursor = spec_walk tiers remaining cost cursor"
proof (induction tiers arbitrary: remaining cost cursor)
  case Nil
  show ?case by simp
next
  case (Cons t ts)
  show ?case
  proof (cases "upToMinutes t")
    case (Fin limit)
    then show ?thesis
      using Cons.IH by (simp add: Let_def max_def)
  next
    case PosInf
    then show ?thesis
      using Cons.IH by (simp add: Let_def)
  qed
qed

lemma norm_tier: "normalizeBaseId (Some ''base-tier'') = ''base-tier''"
  by (simp add: normalizeBaseId_def trim_def isSpace_def)

lemma tiers_normal:
  "normalizeTieredPrices (dp_tieredPrices tierPricing) (1 / 10) = testTiers"
  by (simp add: normalizeTieredPrices_def tierPricing_def List.map_filter_simps normalizeTier_def
      sortTiers_def testTiers_def Let_def)

lemma pricing_tier:
  "getPricing tierPricing st ''base-tier'' =
     \<lparr>pp_planPriceById = planPriceById (case pricingMap st ''base-tier'' of None \<Rightarrow> emptyPricing | Some p \<Rightarrow> p),
      pp_modelUnitPrice = 1 / 10, pp_modelUnitLabel = ''min'', pp_tieredPrices = testTiers\<rparr>"
  if "pricingMap st ''base-tier'' = None"
  using that tiers_normal
  by (simp add: getPricing_def normalizePricing_def emptyPricing_def tierPricing_def)

lemma floor_2000_half: "\<lfloor>(2000::rat) + 1 / 2\<rfloor> = 2000" by (rule floor_unique) simp_all
lemma floor_5000_half: "\<lfloor>(5000::rat) + 1 / 2\<rfloor> = 5000" by (rule floor_unique) simp_all

lemma toFixed4_fifth: "toFixed4 (1 / 5) = 1 / 5"
  using floor_2000_half by (simp add: toFixed4_def)

lemma toFixed4_half: "toFixed4 (1 / 2) = 1 / 2"
  using floor_5000_half by (simp add: toFixed4_def)

lemma first_call:
  "recordUsage tierPricing emptyBilling newYear (Some ''base-tier'') None (Some 1) None (Some newYear)
   = (Recorded \<lparr>rc_count = 1, rc_minutes = 1, rc_cost = 1 / 5, rc_dailyMinutes = 1,
        rc_dailyCost = 1 / 5, rc_unitPrice = 1 / 5, rc_unitLabel = ''min''\<rparr>,
      billingOnPersist (emptyBilling\<lparr>
        dailyUsageMap := [''base-tier'' \<mapsto> [getDateKey newYear \<mapsto> \<lparr>d_minutes = Some 1, d_cost = Some (1 / 5)\<rparr>]],
        usageMap := [''base-tier'' \<mapsto> \<lparr>u_count = Some 1, u_minutes = Some 1, u_cost = Some (1 / 5)\<rparr>]\<rparr>))"
proof -
  have p: "pricingMap emptyBilling ''base-tier'' = None"
    by (simp add: emptyBilling_def createBillingStore_def)
  have u: "usageMap emptyBilling = Map.empty" "dailyUsageMap emptyBilling = Map.empty"
    by (simp_all add: emptyBilling_def createBillingStore_def)
  show ?thesis
    by (simp add: recordUsage_def norm_tier pricing_tier [OF p] getUsage_def getDailyUsage_def u
        resolveMinutes_def orZero_def calculateTieredCost_def resolveCurrentTierUnitPrice_def
        testTiers_def toFixed4_fifth Let_def)
qed

lemma cursorStore_eval:
  "pricingMap cursorStore ''base-tier'' = None"
  "usageMap cursorStore ''base-tier''
     = Some \<lparr>u_count = Some 1, u_minutes = Some 1, u_cost = Some (1 / 5)\<rparr>"
  "dailyUsageMap cursorStore ''base-tier''
     = Some [getDateKey newYear \<mapsto> \<lparr>d_minutes = Some 1, d_cost = Some (1 / 5)\<rparr>]"
proof -
  have c: "cursorStore = billingOnPersist (emptyBilling\<lparr>
        dailyUsageMap := [''base-tier'' \<mapsto> [getDateKey newYear \<mapsto> \<lparr>d_minutes = Some 1, d_cost = Some (1 / 5)\<rparr>]],
        usageMap := [''base-tier'' \<mapsto> \<lparr>u_count = Some 1, u_minutes = Some 1, u_cost = Some (1 / 5)\<rparr>]\<rparr>)"
    by (simp add: cursorStore_def first_call)
  show "pricingMap cursorStore ''base-tier'' = None"
    by (simp add: c billingOnPersist_def emptyBilling_def createBillingStore_def)
  show "usageMap cursorStore ''base-tier''
     = Some \<lparr>u_count = Some 1, u_minutes = Some 1, u_cost = Some (1 / 5)\<rparr>"
    by (simp add: c billingOnPersist_def)
  show "dailyUsageMap cursorStore ''base-tier''
     = Some [getDateKey newYear \<mapsto> \<lparr>d_minutes = Some 1, d_cost = Some (1 / 5)\<rparr>]"
    by (simp add: c billingOnPersist_def)
qed

lemma second_call:
  "fst (recordUsage tierPricing cursorStore newYear (Some ''base-tier'') None (Some 2) None (Some newYear))
   = Recorded \<lparr>rc_count = 3, rc_minutes = 3, rc_cost = 1 / 2, rc_dailyMinutes = 3,
        rc_dailyCost = 1 / 2, rc_unitPrice = 1 / 10, rc_unitLabel = ''min''\<rparr>"
  by (simp add: recordUsage_def norm_tier pricing_tier [OF cursorStore_eval(1)] getUsage_def
      getDailyUsage_def cursorStore_eval(2,3) resolveMinutes_def orZero_def calculateTieredCost_def
      resolveCurrentTierUnitPrice_def testTiers_def toFixed4_half Let_def)

lemma cursor_daily:
  "getDailyUsage cursorStore (Some ''base-tier'') (getDateKey newYear)
     = \<lparr>dv_date = getDateKey newYear, dv_minutes = 1, dv_cost = 1 / 5\<rparr>"
  by (simp add: getDailyUsage_def norm_tier cursorStore_eval(3) orZero_def Let_def)

lemma cursor_tiers:
  "pp_tieredPrices (getPricing tierPricing cursorStore ''base-tier'') = testTiers"
  by (simp add: pricing_tier [OF cursorStore_eval(1)])

text \<open>
  Claim C1. For every price list, every previous daily total and every added quantity
  \<open>add > 0\<close>, \<open>calculateTieredCost\<close> computes what the specification's tier walk computes,
  and with no tiers the cost is \<open>add * fallbackUnitPrice\<close>; neither the order of the tiers
  nor the sign of the previous total is needed. The example of the claim is stated where the
  code has rounded the amounts, at \<^verbatim>\<open>recordUsage\<close>: with the tiers
  \<open>\<le> 2 min at 0.2, \<le> 5 min at 0.1, unbounded at 0.05\<close> and the daily cursor at 1 minute and
  0.2 of cost, recording 2 minutes brings the day to 3 minutes and 0.5 of cost, that is
  0.2 + 0.1 = 0.3 for the 2 minutes.
\<close>

theorem calculateTieredCost_refines_spec:
  "0 < add \<Longrightarrow>
     calculateTieredCost tiers prev add fb = spec_tier_cost tiers prev add fb
     \<and> calculateTieredCost [] prev add fb = add * fb
     \<and> pp_tieredPrices (getPricing tierPricing cursorStore ''base-tier'') = testTiers
     \<and> getDailyUsage cursorStore (Some ''base-tier'') (getDateKey newYear)
          = \<lparr>dv_date = getDateKey newYear, dv_minutes = 1, dv_cost = 1 / 5\<rparr>
     \<and> fst (recordUsage tierPricing cursorStore newYear (Some ''base-tier'') None (Some 2) None
               (Some newYear))
          = Recorded \<lparr>rc_count = 3, rc_minutes = 3, rc_cost = 1 / 2, rc_dailyMinutes = 3,
              rc_dailyCost = 1 / 2, rc_unitPrice = 1 / 10, rc_unitLabel = ''min''\<rparr>"
proof (intro conjI)
  assume pos: "0 < add"
  show "calculateTieredCost tiers prev add fb = spec_tier_cost tiers prev add fb"
  proof (cases "tiers = []")
    case True
    with pos show ?thesis
      by (simp add: calculateTieredCost_def spec_tier_cost_def)
  next
    case False
    then show ?thesis
      by (simp add: calculateTieredCost_def spec_tier_cost_def tierLoop_spec_walk)
  qed
  show "calculateTieredCost [] prev add fb = add * fb"
    by (simp add: calculateTieredCost_def)
  show "pp_tieredPrices (getPricing tierPricing cursorStore ''base-tier'') = testTiers"
    by (rule cursor_tiers)
  show "getDailyUsage cursorStore (Some ''base-tier'') (getDateKey newYear)
          = \<lparr>dv_date = getDateKey newYear, dv_minutes = 1, dv_cost = 1 / 5\<rparr>"
    by (rule cursor_daily)
  show "fst (recordUsage tierPricing cursorStore newYear (Some ''base-tier'') None (Some 2) None
               (Some newYear))
          = Recorded \<lparr>rc_count = 3, rc_minutes = 3, rc_cost = 1 / 2, rc_dailyMinutes = 3,
              rc_dailyCost = 1 / 2, rc_unitPrice = 1 / 10, rc_unitLabel = ''min''\<rparr>"
    by (rule second_call)
qed

theorem calculateTieredCost_refines_spec_witness:
  "(0::rat) < 3
   \<and> calculateTieredCost testTiers 1 3 0 = spec_tier_cost testTiers 1 3 0
   \<and> spec_tier_cost testTiers 1 3 0 = 1 * (2 / 10) + 2 * (1 / 10)
   \<and> calculateTieredCost [] 1 3 (1 / 10) = 3 * (1 / 10)"
proof -
  have h: "(0::rat) < 3" by simp
  have v: "spec_tier_cost testTiers 1 3 0 = 1 * (2 / 10) + 2 * (1 / 10)"
    by (simp add: spec_tier_cost_def testTiers_def Let_def)
  note w = calculateTieredCost_refines_spec [OF h]
  show ?thesis
    using h v w [of testTiers 1 0, THEN conjunct1] w [of "[]" 1 "1 / 10", THEN conjunct2, THEN conjunct1]
    by simp
qed

text \<open>
  Claim C6 as stated fails: a last tier priced 0 that does not hold the total makes
  \<open>resolveCurrentTierUnitPrice\<close> return the fallback price although the list is not empty
  (\<^verbatim>\<open>tieredPrices[tieredPrices.length - 1].unitPrice || fallbackUnitPrice\<close>).
\<close>

theorem resolveCurrentTierUnitPrice_zero_terminal_counterexample:
  "tierScan [\<lparr>upToMinutes = Fin 2, unitPrice = 0\<rparr>] 3 = None
   \<and> resolveCurrentTierUnitPrice [\<lparr>upToMinutes = Fin 2, unitPrice = 0\<rparr>] 3 (1 / 2) = 1 / 2
   \<and> resolveCurrentTierUnitPrice [\<lparr>upToMinutes = Fin 2, unitPrice = 0\<rparr>] 3 (1 / 2)
       \<noteq> unitPrice (last [\<lparr>upToMinutes = Fin 2, unitPrice = 0\<rparr>])"
  by (simp add: resolveCurrentTierUnitPrice_def orElse_def)

lemma tierScan_first:
  "\<forall>u\<in>set pre. \<not> holds totalMinutes (upToMinutes u) \<Longrightarrow>
   holds totalMinutes (upToMinutes t) \<Longrightarrow>
   tierScan (pre @ t # post) totalMinutes = Some (unitPrice t)"
  by (induction pre) simp_all

lemma tierScan_none:
  "\<forall>u\<in>set tiers. \<not> holds totalMinutes (upToMinutes u) \<Longrightarrow> tierScan tiers totalMinutes = None"
  by (induction tiers) simp_all

text \<open>
  Claim C6, amended. \<open>resolveCurrentTierUnitPrice\<close> returns the unit price of the first tier
  whose boundary is at least the total; if no tier's boundary qualifies it returns the last
  tier's unit price when that price is not zero, and the fallback price when it is zero; for
  the empty list it returns the fallback price.
\<close>

theorem resolveCurrentTierUnitPrice_cases:
  "((\<forall>u\<in>set pre. \<not> holds totalMinutes (upToMinutes u)) \<and> holds totalMinutes (upToMinutes t)
      \<longrightarrow> resolveCurrentTierUnitPrice (pre @ t # post) totalMinutes fb = unitPrice t)
   \<and> (tiers \<noteq> [] \<and> (\<forall>u\<in>set tiers. \<not> holds totalMinutes (upToMinutes u))
      \<longrightarrow> resolveCurrentTierUnitPrice tiers totalMinutes fb =
            (if unitPrice (last tiers) = 0 then fb else unitPrice (last tiers)))
   \<and> resolveCurrentTierUnitPrice [] totalMinutes fb = fb"
proof (intro conjI impI)
  assume "(\<forall>u\<in>set pre. \<not> holds totalMinutes (upToMinutes u)) \<and> holds totalMinutes (upToMinutes t)"
  then have "tierScan (pre @ t # post) totalMinutes = Some (unitPrice t)"
    by (simp add: tierScan_first)
  then show "resolveCurrentTierUnitPrice (pre @ t # post) totalMinutes fb = unitPrice t"
    by (simp add: resolveCurrentTierUnitPrice_def)
next
  assume a: "tiers \<noteq> [] \<and> (\<forall>u\<in>set tiers. \<not> holds totalMinutes (upToMinutes u))"
  then have "tierScan tiers totalMinutes = None"
    by (simp add: tierScan_none)
  with a show "resolveCurrentTierUnitPrice tiers totalMinutes fb =
      (if unitPrice (last tiers) = 0 then fb else unitPrice (last tiers))"
    by (simp add: resolveCurrentTierUnitPrice_def orElse_def)
next
  show "resolveCurrentTierUnitPrice [] totalMinutes fb = fb"
    by (simp add: resolveCurrentTierUnitPrice_def)
qed

theorem resolveCurrentTierUnitPrice_cases_witness:
  "\<not> holds 3 (Fin 2)
   \<and> holds 3 (Fin 5)
   \<and> resolveCurrentTierUnitPrice testTiers 3 7 = 1 / 10
   \<and> [\<lparr>upToMinutes = Fin 2, unitPrice = 2 / 10\<rparr>] \<noteq> []
   \<and> resolveCurrentTierUnitPrice [\<lparr>upToMinutes = Fin 2, unitPrice = 2 / 10\<rparr>] 3 7 = 2 / 10"
  using resolveCurrentTierUnitPrice_cases
    [of "[\<lparr>upToMinutes = Fin 2, unitPrice = 2 / 10\<rparr>]" 3
        "\<lparr>upToMinutes = Fin 5, unitPrice = 1 / 10\<rparr>"
        "[\<lparr>upToMinutes = PosInf, unitPrice = 5 / 100\<rparr>]" 7
        "[\<lparr>upToMinutes = Fin 2, unitPrice = 2 / 10\<rparr>]"]
  by (simp add: testTiers_def)

section \<open>Properties of tenant keys\<close>

lemma dropWhile_snoc_keeps:
  "\<not> P x \<Longrightarrow> \<exists>ys. dropWhile P (zs @ [x]) = ys @ [x]"
  by (induction zs) auto

lemma dropWhile_rev_front:
  assumes "t = [] \<or> \<not> P (hd t)"
  shows "dropWhile P (rev (dropWhile P (rev t))) = rev (dropWhile P (rev t))"
proof (cases t)
  case Nil
  then show ?thesis by simp
next
  case (Cons x xs)
  with assms have nx: "\<not> P x" by simp
  obtain ys where "dropWhile P (rev xs @ [x]) = ys @ [x]"
    using dropWhile_snoc_keeps [of P x "rev xs"] nx by blast
  with Cons nx show ?thesis by simp
qed

lemma trim_idem: "trim (trim s) = trim s"
proof -
  have "dropWhile isSpace s = [] \<or> \<not> isSpace (hd (dropWhile isSpace s))"
    using hd_dropWhile [of isSpace s] by blast
  then show ?thesis
    unfolding trim_def by (simp add: dropWhile_rev_front)
qed

lemma normalizeBaseId_idem: "normalizeBaseId (Some (normalizeBaseId v)) = normalizeBaseId v"
  by (cases v) (simp_all add: normalizeBaseId_def trim_idem, simp add: trim_def)

lemma norm_t: "normalizeBaseId (Some ''t'') = ''t''"
  by (simp add: normalizeBaseId_def trim_def isSpace_def)

lemma norm_a: "normalizeBaseId (Some ''a'') = ''a''"
  by (simp add: normalizeBaseId_def trim_def isSpace_def)

lemma norm_b: "normalizeBaseId (Some ''b'') = ''b''"
  by (simp add: normalizeBaseId_def trim_def isSpace_def)

section \<open>Properties of plan activation\<close>

lemma leadingDigit_le: "leadingDigit n \<le> 9"
proof (induction n rule: leadingDigit.induct)
  case (1 n)
  then show ?case by (subst leadingDigit.simps) auto
qed

lemma parseIntString_small: "\<bar>n\<bar> < 10 ^ 21 \<Longrightarrow> parseIntString n = n"
  by (simp add: parseIntString_def)

lemma parseIntString_bound: "\<bar>parseIntString n\<bar> < 10 ^ 21"
proof (cases "\<bar>n\<bar> < 10 ^ 21")
  case True
  then show ?thesis by (simp add: parseIntString_def)
next
  case False
  have "\<bar>sgn n * int (leadingDigit (nat \<bar>n\<bar>))\<bar> \<le> 9"
    using leadingDigit_le [of "nat \<bar>n\<bar>"] by (simp add: abs_mult abs_sgn_eq)
  with False show ?thesis by (simp add: parseIntString_def)
qed

lemma getPaidUntil_bound: "\<bar>getPaidUntil st t\<bar> < 10 ^ 21"
  using parseIntString_bound by (simp add: getPaidUntil_def split: option.splits)

lemma safe_below: "isSafeInteger n \<Longrightarrow> \<bar>n\<bar> < 10 ^ 21"
  by (simp add: isSafeInteger_def MAX_SAFE_INTEGER_def)

lemma getPaidUntil_setPaidUntil:
  "b \<noteq> [] \<Longrightarrow>
   getPaidUntil (setPaidUntil st b u) t = (if t = b then parseIntString u else getPaidUntil st t)"
  by (simp add: getPaidUntil_def setPaidUntil_def onPersist_def)

lemma getPaidUntil_onPersist [simp]: "getPaidUntil (onPersist st) t = getPaidUntil st t"
  by (simp add: getPaidUntil_def onPersist_def)

lemma getPaidUntil_redeemList_update [simp]:
  "getPaidUntil (st\<lparr>redeemList := xs\<rparr>) t = getPaidUntil st t"
  by (simp add: getPaidUntil_def)

lemma activatePlan_rejects:
  "normalizeBaseId b = [] \<or> \<not> truthy d \<Longrightarrow> activatePlan st now b d paidAt = (None, st)"
  by (auto simp: activatePlan_def truthy_def Let_def split: option.splits)

lemma activatePlan_accepts:
  "normalizeBaseId b \<noteq> [] \<Longrightarrow> D \<noteq> 0 \<Longrightarrow>
   activatePlan st now b (Some D) paidAt =
     (Some (max now (max (orNow paidAt now) (getPaidUntil st (normalizeBaseId b))) + D),
      setPaidUntil st (normalizeBaseId b)
        (max now (max (orNow paidAt now) (getPaidUntil st (normalizeBaseId b))) + D))"
  by (simp add: activatePlan_def Let_def)

lemma activatePlan_reads_back:
  assumes "normalizeBaseId b \<noteq> []" "D \<noteq> 0"
    "fst (activatePlan st now b (Some D) paidAt) = Some u" "isSafeInteger u"
  shows "getPaidUntil (snd (activatePlan st now b (Some D) paidAt)) (normalizeBaseId b) = u"
  using assms safe_below [of u]
  by (auto simp: activatePlan_accepts getPaidUntil_setPaidUntil parseIntString_small)

lemma activatePlan_stacks:
  assumes "normalizeBaseId b \<noteq> []" "0 < D"
    "fst (activatePlan st now b (Some D) paidAt) = Some first"
    "isSafeInteger first" "now2 \<le> first" "p2 \<le> first"
  shows "fst (activatePlan (snd (activatePlan st now b (Some D) paidAt)) now2 b (Some D) (Some p2))
           = Some (first + D)"
proof -
  have 1: "activatePlan st now b (Some D) paidAt
      = (Some first, setPaidUntil st (normalizeBaseId b) first)"
    using assms(1-3) by (simp add: activatePlan_accepts)
  have rb: "parseIntString first = first"
    using safe_below [OF assms(4)] by (rule parseIntString_small)
  have "orNow (Some p2) now2 \<le> first"
    using assms(5,6) by (simp add: orNow_def)
  with assms(1,2,5) rb show ?thesis
    by (simp add: 1 activatePlan_accepts getPaidUntil_setPaidUntil max_def)
qed

text \<open>
  Claim C3 as stated fails: \<open>activatePlan\<close> accepts every duration that is not zero. With a
  negative duration the second of two activations in succession returns what the first
  returned, here 4000 both times, and not a value greater by the duration. A duration of
  \<open>10^21\<close> is accepted as well, and the paid-until it stores is written in exponent notation
  and read back as 1.
\<close>

theorem activatePlan_stacking_counterexample:
  "fst (activatePlan freshStore 5000 (Some ''t'') (Some (- 1000)) (Some 5000)) = Some 4000
   \<and> fst (activatePlan (snd (activatePlan freshStore 5000 (Some ''t'') (Some (- 1000)) (Some 5000)))
            5000 (Some ''t'') (Some (- 1000)) (Some 5000)) = Some 4000
   \<and> (\<exists>u. fst (activatePlan freshStore 5000 (Some ''t'') (Some (10 ^ 21)) (Some 5000)) = Some u
           \<and> 10 ^ 21 \<le> u)
   \<and> getPaidUntil (snd (activatePlan freshStore 5000 (Some ''t'') (Some (10 ^ 21)) (Some 5000))) ''t''
       = 1"
  by (simp add: freshStore_def createSubscriptionStore_def activatePlan_def norm_t Let_def
      getPaidUntil_def setPaidUntil_def onPersist_def orNow_def parseIntString_def
      leadingDigit.simps)

text \<open>
  Claim C3, amended. \<open>activatePlan\<close> returns \<^verbatim>\<open>null\<close> and changes nothing when the tenant key is
  blank or the duration is missing or zero. Otherwise, when
  \<open>max(now, paidAt, current paid-until) + durationMs\<close> is a safe integer, the call returns that
  value and the tenant's paid-until reads back as it; a \<open>paidAt\<close> that is missing or zero
  counts as \<open>now\<close>. Two activations of a positive duration \<open>D\<close> in succession stack: when the
  first result and the first result plus \<open>D\<close> are safe integers, the first result is later
  than the clock reading of the first call, and a second call made at a clock reading and
  with a \<open>paidAt\<close> not after the first result, as are those of the first call, returns the
  first result plus exactly \<open>D\<close>, strictly later.
\<close>

theorem activatePlan_extends:
  "(normalizeBaseId b = [] \<or> \<not> truthy d \<longrightarrow> activatePlan st now b d paidAt = (None, st))
   \<and> (normalizeBaseId b \<noteq> [] \<and> D \<noteq> 0 \<and> p \<noteq> 0
        \<and> isSafeInteger (max now (max p (getPaidUntil st (normalizeBaseId b))) + D) \<longrightarrow>
        fst (activatePlan st now b (Some D) (Some p))
          = Some (max now (max p (getPaidUntil st (normalizeBaseId b))) + D)
        \<and> getPaidUntil (snd (activatePlan st now b (Some D) (Some p))) (normalizeBaseId b)
          = max now (max p (getPaidUntil st (normalizeBaseId b))) + D)
   \<and> (normalizeBaseId b \<noteq> [] \<and> D \<noteq> 0 \<and> (q = None \<or> q = Some 0)
        \<and> isSafeInteger (max now (getPaidUntil st (normalizeBaseId b)) + D) \<longrightarrow>
        fst (activatePlan st now b (Some D) q)
          = Some (max now (getPaidUntil st (normalizeBaseId b)) + D)
        \<and> getPaidUntil (snd (activatePlan st now b (Some D) q)) (normalizeBaseId b)
          = max now (getPaidUntil st (normalizeBaseId b)) + D)
   \<and> (normalizeBaseId b \<noteq> [] \<and> 0 < D \<longrightarrow>
        (\<forall>first.
           fst (activatePlan st now b (Some D) paidAt) = Some first
           \<and> isSafeInteger first \<and> isSafeInteger (first + D) \<longrightarrow>
             now < first
             \<and> (\<forall>now2 p2. now2 \<le> first \<and> p2 \<le> first \<longrightarrow>
                   fst (activatePlan (snd (activatePlan st now b (Some D) paidAt))
                          now2 b (Some D) (Some p2)) = Some (first + D))
             \<and> first < first + D))"
proof (intro conjI impI allI)
  assume "normalizeBaseId b = [] \<or> \<not> truthy d"
  then show "activatePlan st now b d paidAt = (None, st)"
    by (rule activatePlan_rejects)
next
  assume a: "normalizeBaseId b \<noteq> [] \<and> D \<noteq> 0 \<and> p \<noteq> 0
        \<and> isSafeInteger (max now (max p (getPaidUntil st (normalizeBaseId b))) + D)"
  then have f: "fst (activatePlan st now b (Some D) (Some p))
          = Some (max now (max p (getPaidUntil st (normalizeBaseId b))) + D)"
    by (simp add: activatePlan_accepts orNow_def)
  then show "fst (activatePlan st now b (Some D) (Some p))
          = Some (max now (max p (getPaidUntil st (normalizeBaseId b))) + D)" .
  from a f show "getPaidUntil (snd (activatePlan st now b (Some D) (Some p))) (normalizeBaseId b)
          = max now (max p (getPaidUntil st (normalizeBaseId b))) + D"
    by (intro activatePlan_reads_back) simp_all
next
  assume a: "normalizeBaseId b \<noteq> [] \<and> D \<noteq> 0 \<and> (q = None \<or> q = Some 0)
        \<and> isSafeInteger (max now (getPaidUntil st (normalizeBaseId b)) + D)"
  then have f: "fst (activatePlan st now b (Some D) q)
          = Some (max now (getPaidUntil st (normalizeBaseId b)) + D)"
    by (auto simp: activatePlan_accepts orNow_def)
  then show "fst (activatePlan st now b (Some D) q)
          = Some (max now (getPaidUntil st (normalizeBaseId b)) + D)" .
  from a f show "getPaidUntil (snd (activatePlan st now b (Some D) q)) (normalizeBaseId b)
          = max now (getPaidUntil st (normalizeBaseId b)) + D"
    by (intro activatePlan_reads_back) simp_all
next
  fix first
  assume a: "normalizeBaseId b \<noteq> [] \<and> 0 < D"
    and f: "fst (activatePlan st now b (Some D) paidAt) = Some first
           \<and> isSafeInteger first \<and> isSafeInteger (first + D)"
  from a f show "now < first"
    by (auto simp: activatePlan_accepts)
  { fix now2 p2
    assume "now2 \<le> first \<and> p2 \<le> first"
    with a f show "fst (activatePlan (snd (activatePlan st now b (Some D) paidAt))
                          now2 b (Some D) (Some p2)) = Some (first + D)"
      by (intro activatePlan_stacks) simp_all }
  from a show "first < first + D" by simp
qed

theorem activatePlan_extends_witness:
  "normalizeBaseId (Some ''t'') \<noteq> []
   \<and> getPaidUntil paidStore ''t'' = 10000
   \<and> activatePlan paidStore 5000 None (Some 1000) (Some 5000) = (None, paidStore)
   \<and> activatePlan paidStore 5000 (Some ''t'') (Some 0) (Some 5000) = (None, paidStore)
   \<and> fst (activatePlan paidStore 5000 (Some ''t'') (Some 1000) (Some 20000)) = Some 21000
   \<and> getPaidUntil (snd (activatePlan paidStore 5000 (Some ''t'') (Some 1000) (Some 20000))) ''t'' = 21000
   \<and> fst (activatePlan paidStore 5000 (Some ''t'') (Some 1000) None) = Some 11000
   \<and> fst (activatePlan paidStore 5000 (Some ''t'') (Some 1000) (Some 5000)) = Some 11000
   \<and> fst (activatePlan (snd (activatePlan paidStore 5000 (Some ''t'') (Some 1000) (Some 5000)))
            5000 (Some ''t'') (Some 1000) (Some 5000)) = Some 12000
   \<and> fst (activatePlan (snd (activatePlan paidStore 5000 (Some ''t'') (Some 1000) (Some 5000)))
            7000 (Some ''t'') (Some 1000) (Some 7000)) = Some 12000"
proof -
  have n: "normalizeBaseId (Some ''t'') = ''t''" by (rule norm_t)
  have n0: "normalizeBaseId None = []" by (simp add: normalizeBaseId_def)
  have g: "getPaidUntil paidStore ''t'' = 10000"
    by (simp add: paidStore_def createSubscriptionStore_def getPaidUntil_def parseIntString_def)
  have s1: "isSafeInteger 21000" and s2: "isSafeInteger 11000" and s3: "isSafeInteger 12000"
    by (simp_all add: isSafeInteger_def MAX_SAFE_INTEGER_def)
  note r = activatePlan_extends [of None "Some 1000" paidStore 5000 "Some 5000" 1000 5000 None]
  note z = activatePlan_extends [of "Some ''t''" "Some 0" paidStore 5000 "Some 5000" 1000 5000 None]
  note t = activatePlan_extends [of "Some ''t''" "Some 1000" paidStore 5000 "Some 5000" 1000 20000 None]
  note u = activatePlan_extends [of "Some ''t''" "Some 1000" paidStore 5000 "Some 5000" 1000 5000 None]
  have r1: "activatePlan paidStore 5000 None (Some 1000) (Some 5000) = (None, paidStore)"
    using r [THEN conjunct1] n0 by simp
  have z1: "activatePlan paidStore 5000 (Some ''t'') (Some 0) (Some 5000) = (None, paidStore)"
    using z [THEN conjunct1] by (simp add: truthy_def)
  have t1: "fst (activatePlan paidStore 5000 (Some ''t'') (Some 1000) (Some 20000)) = Some 21000"
    and t2: "getPaidUntil (snd (activatePlan paidStore 5000 (Some ''t'') (Some 1000) (Some 20000))) ''t''
      = 21000"
    using t [THEN conjunct2, THEN conjunct1] n g s1 by simp_all
  have t3: "fst (activatePlan paidStore 5000 (Some ''t'') (Some 1000) None) = Some 11000"
    using t [THEN conjunct2, THEN conjunct2, THEN conjunct1] n g s2 by simp
  have u1: "fst (activatePlan paidStore 5000 (Some ''t'') (Some 1000) (Some 5000)) = Some 11000"
    using u [THEN conjunct2, THEN conjunct1] n g s2 by simp
  have u2: "\<forall>now2 p2. now2 \<le> 11000 \<and> p2 \<le> 11000 \<longrightarrow>
      fst (activatePlan (snd (activatePlan paidStore 5000 (Some ''t'') (Some 1000) (Some 5000)))
             now2 (Some ''t'') (Some 1000) (Some p2)) = Some 12000"
    using u [THEN conjunct2, THEN conjunct2, THEN conjunct2] n u1 s2 s3 by simp
  have u3: "fst (activatePlan (snd (activatePlan paidStore 5000 (Some ''t'') (Some 1000) (Some 5000)))
            5000 (Some ''t'') (Some 1000) (Some 5000)) = Some 12000"
    using u2 by simp
  have u4: "fst (activatePlan (snd (activatePlan paidStore 5000 (Some ''t'') (Some 1000) (Some 5000)))
            7000 (Some ''t'') (Some 1000) (Some 7000)) = Some 12000"
    using u2 by simp
  show ?thesis using n g r1 z1 t1 t2 t3 u1 u3 u4 by simp
qed

lemma start_plus_duration:
  "0 < D \<Longrightarrow> c < max now (max p c) + (D::int)"
  by linarith

lemma activatePlan_strict:
  assumes "0 < D" "normalizeBaseId b \<noteq> []"
    "\<forall>u. fst (activatePlan st now b (Some D) paidAt) = Some u \<longrightarrow> isSafeInteger u"
  shows "getPaidUntil st (normalizeBaseId b)
           < getPaidUntil (snd (activatePlan st now b (Some D) paidAt)) (normalizeBaseId b)"
proof -
  let ?u = "max now (max (orNow paidAt now) (getPaidUntil st (normalizeBaseId b))) + D"
  have f: "fst (activatePlan st now b (Some D) paidAt) = Some ?u"
    using assms(1,2) by (simp add: activatePlan_accepts)
  with assms(3) have "isSafeInteger ?u" by blast
  with assms(1,2) f
  have "getPaidUntil (snd (activatePlan st now b (Some D) paidAt)) (normalizeBaseId b) = ?u"
    by (intro activatePlan_reads_back) simp_all
  then show ?thesis
    using start_plus_duration [OF assms(1), of "getPaidUntil st (normalizeBaseId b)" now "orNow paidAt now"]
    by simp
qed

lemma activatePlan_monotone:
  assumes "0 < D"
    "\<forall>u. fst (activatePlan st now b (Some D) paidAt) = Some u \<longrightarrow> isSafeInteger u"
  shows "getPaidUntil st t \<le> getPaidUntil (snd (activatePlan st now b (Some D) paidAt)) t"
proof (cases "normalizeBaseId b = []")
  case True
  then show ?thesis by (simp add: activatePlan_def)
next
  case False
  show ?thesis
  proof (cases "t = normalizeBaseId b")
    case True
    then show ?thesis
      using activatePlan_strict [OF assms(1) False assms(2)] by simp
  next
    case other: False
    with False assms(1) show ?thesis
      by (simp add: activatePlan_accepts getPaidUntil_setPaidUntil)
  qed
qed

lemma activatePlan_monotone_opt:
  assumes "case d of None \<Rightarrow> True | Some n \<Rightarrow> 0 \<le> n"
    "\<forall>u. fst (activatePlan st now b d paidAt) = Some u \<longrightarrow> isSafeInteger u"
  shows "getPaidUntil st t \<le> getPaidUntil (snd (activatePlan st now b d paidAt)) t"
proof (cases d)
  case None
  then show ?thesis by (simp add: activatePlan_def)
next
  case (Some n)
  show ?thesis
  proof (cases "n = 0")
    case True
    with Some show ?thesis by (simp add: activatePlan_def)
  next
    case False
    with Some assms(1) have "0 < n" by simp
    with Some assms(2) show ?thesis by (simp add: activatePlan_monotone)
  qed
qed

lemma findFirst_Some:
  "findFirst P xs = Some (i, x) \<Longrightarrow> i < length xs \<and> xs ! i = x \<and> P x \<and> (\<forall>j<i. \<not> P (xs ! j))"
proof (induction xs arbitrary: i)
  case Nil
  then show ?case by simp
next
  case (Cons y ys)
  show ?case
  proof (cases "P y")
    case True
    with Cons.prems show ?thesis by simp
  next
    case False
    with Cons.prems obtain k where k: "findFirst P ys = Some (k, x)" "i = Suc k"
      by (auto split: option.splits)
    from Cons.IH [OF k(1)] have "k < length ys \<and> ys ! k = x \<and> P x \<and> (\<forall>j<k. \<not> P (ys ! j))" .
    with False k show ?thesis by (auto simp: nth_Cons split: nat.splits)
  qed
qed

lemma redeem_monotone:
  assumes "\<forall>x\<in>set (redeemList st). case durationMs x of None \<Rightarrow> True | Some n \<Rightarrow> 0 \<le> n"
    "\<forall>u. fst (redeem cfg st now b code) = RedeemOk (Some u) \<longrightarrow> isSafeInteger u"
  shows "getPaidUntil st t \<le> getPaidUntil (snd (redeem cfg st now b code)) t"
proof (cases "normalizeBaseId b = [] \<or> code = []")
  case True
  then show ?thesis by (auto simp: redeem_def Let_def)
next
  case ok: False
  show ?thesis
  proof (cases "findFirst (\<lambda>x. codeHash x = hashCode cfg code) (redeemList st)")
    case None
    with ok show ?thesis by (simp add: redeem_def Let_def)
  next
    case (Some found)
    obtain i item where found: "found = (i, item)" by (cases found)
    note f = Some [unfolded found]
    show ?thesis
    proof (cases "usedAt item \<noteq> 0 \<and> usedBy item \<noteq> []")
      case True
      with ok f show ?thesis by (simp add: redeem_def Let_def)
    next
      case False
      let ?act = "activatePlan st now (Some (normalizeBaseId b)) (durationMs item) (Some now)"
      from False ok f have r: "fst (redeem cfg st now b code) = RedeemOk (fst ?act)"
        and s: "getPaidUntil (snd (redeem cfg st now b code)) t = getPaidUntil (snd ?act) t"
        by (auto simp: redeem_def Let_def)
      have "item \<in> set (redeemList st)"
        using findFirst_Some [OF f] by (metis nth_mem)
      with assms(1) have d: "case durationMs item of None \<Rightarrow> True | Some n \<Rightarrow> 0 \<le> n" by blast
      from assms(2) r have "\<forall>u. fst ?act = Some u \<longrightarrow> isSafeInteger u" by simp
      with d have "getPaidUntil st t \<le> getPaidUntil (snd ?act) t"
        by (rule activatePlan_monotone_opt)
      with s show ?thesis by simp
    qed
  qed
qed

lemma plan_durations_positive:
  "find (\<lambda>item. plan_id item = pid) billingPlans = Some pl \<Longrightarrow> 0 < plan_durationMs pl"
  by (auto simp: billingPlans_def split: if_splits)

lemma finalizePaidOrder_monotone:
  assumes "\<forall>u. fst (finalizePaidOrder orders st now oid paidAt) = Finalized (Some u)
             \<longrightarrow> isSafeInteger u"
  shows "getPaidUntil st t \<le> getPaidUntil (snd (snd (finalizePaidOrder orders st now oid paidAt))) t"
proof (cases "orders oid")
  case None
  then show ?thesis by (simp add: finalizePaidOrder_def)
next
  case (Some ord)
  show ?thesis
  proof (cases "find (\<lambda>item. plan_id item = o_planId ord) billingPlans")
    case None
    with Some show ?thesis by (simp add: finalizePaidOrder_def)
  next
    case pl: (Some pl)
    let ?act = "activatePlan st now (Some (o_baseId ord)) (Some (plan_durationMs pl))
        (Some (orNow paidAt now))"
    from Some pl have r: "fst (finalizePaidOrder orders st now oid paidAt) = Finalized (fst ?act)"
      and s: "snd (snd (finalizePaidOrder orders st now oid paidAt)) = snd ?act"
      by (simp_all add: finalizePaidOrder_def Let_def)
    from pl have "0 < plan_durationMs pl" by (rule plan_durations_positive)
    moreover from assms r have "\<forall>u. fst ?act = Some u \<longrightarrow> isSafeInteger u" by simp
    ultimately have "getPaidUntil st t \<le> getPaidUntil (snd ?act) t"
      by (rule activatePlan_monotone)
    with s show ?thesis by simp
  qed
qed

text \<open>
  Claim C4 as stated fails: \<open>activatePlan\<close> accepts every duration that is not zero. A negative
  one moves an unexpired paid-until backwards, here from 10000 to 9000; and a duration of
  \<open>10^21\<close> stores a paid-until that is written in exponent notation and read back as 1.
\<close>

theorem activatePlan_backwards_counterexample:
  "getPaidUntil paidStore ''t'' = 10000
   \<and> fst (activatePlan paidStore 5000 (Some ''t'') (Some (- 1000)) (Some 5000)) = Some 9000
   \<and> getPaidUntil (snd (activatePlan paidStore 5000 (Some ''t'') (Some (- 1000)) (Some 5000))) ''t''
        = 9000
   \<and> fst (activatePlan paidStore 5000 (Some ''t'') (Some (10 ^ 21)) (Some 5000)) \<noteq> None
   \<and> getPaidUntil (snd (activatePlan paidStore 5000 (Some ''t'') (Some (10 ^ 21)) (Some 5000))) ''t''
        = 1"
  by (simp add: paidStore_def createSubscriptionStore_def activatePlan_def norm_t Let_def
      getPaidUntil_def setPaidUntil_def onPersist_def orNow_def parseIntString_def
      leadingDigit.simps)

text \<open>
  Claim C4, amended. Under a write with a positive duration whose resulting paid-until is a
  safe integer, the stored paid-until of no tenant moves backwards: \<open>activatePlan\<close> with
  \<open>durationMs > 0\<close> leaves every tenant's paid-until equal or later and makes that of the
  tenant it activates strictly later; \<open>redeem\<close> leaves every paid-until equal or later when
  no record of the code list has a negative duration; order finalisation, whose durations
  are the positive constants of \<open>billingPlans\<close>, does so too.
\<close>

theorem paidUntil_forward_positive:
  "(0 < D \<and> (\<forall>u. fst (activatePlan st now b (Some D) paidAt) = Some u \<longrightarrow> isSafeInteger u) \<longrightarrow>
      getPaidUntil st t \<le> getPaidUntil (snd (activatePlan st now b (Some D) paidAt)) t)
   \<and> (0 < D \<and> normalizeBaseId b \<noteq> []
       \<and> (\<forall>u. fst (activatePlan st now b (Some D) paidAt) = Some u \<longrightarrow> isSafeInteger u) \<longrightarrow>
      getPaidUntil st (normalizeBaseId b)
        < getPaidUntil (snd (activatePlan st now b (Some D) paidAt)) (normalizeBaseId b))
   \<and> ((\<forall>x\<in>set (redeemList st). case durationMs x of None \<Rightarrow> True | Some n \<Rightarrow> 0 \<le> n)
       \<and> (\<forall>u. fst (redeem cfg st now b code) = RedeemOk (Some u) \<longrightarrow> isSafeInteger u) \<longrightarrow>
      getPaidUntil st t \<le> getPaidUntil (snd (redeem cfg st now b code)) t)
   \<and> ((\<forall>u. fst (finalizePaidOrder billingOrders st now orderId paidAt) = Finalized (Some u)
             \<longrightarrow> isSafeInteger u) \<longrightarrow>
      getPaidUntil st t
        \<le> getPaidUntil (snd (snd (finalizePaidOrder billingOrders st now orderId paidAt))) t)"
  using activatePlan_monotone [of D st now b paidAt t] activatePlan_strict [of D b st now paidAt]
    redeem_monotone [of st cfg now b code t]
    finalizePaidOrder_monotone [of billingOrders st now orderId paidAt t]
  by blast

theorem paidUntil_forward_positive_witness:
  "getPaidUntil paidStore ''t'' = 10000
   \<and> fst (activatePlan paidStore 5000 (Some ''t'') (Some 1000) (Some 5000)) = Some 11000
   \<and> isSafeInteger 11000
   \<and> getPaidUntil (snd (activatePlan paidStore 5000 (Some ''t'') (Some 1000) (Some 5000))) ''t'' = 11000
   \<and> getPaidUntil paidStore ''t''
        < getPaidUntil (snd (activatePlan paidStore 5000 (Some ''t'') (Some 1000) (Some 5000))) ''t''
   \<and> getPaidUntil dupStore ''a'' = 0
   \<and> fst (redeem trialConfig dupStore 5000 (Some ''a'') ''X'') = RedeemOk (Some 6000)
   \<and> isSafeInteger 6000
   \<and> getPaidUntil (snd (redeem trialConfig dupStore 5000 (Some ''a'') ''X'')) ''a'' = 6000
   \<and> getPaidUntil dupStore ''a''
        \<le> getPaidUntil (snd (redeem trialConfig dupStore 5000 (Some ''a'') ''X'')) ''a''
   \<and> fst (finalizePaidOrder pendingOrders paidStore 5000 ''o'' (Some 5000)) = Finalized (Some 2592010000)
   \<and> isSafeInteger 2592010000
   \<and> getPaidUntil (snd (snd (finalizePaidOrder pendingOrders paidStore 5000 ''o'' (Some 5000)))) ''t''
        = 2592010000
   \<and> getPaidUntil paidStore ''t''
        \<le> getPaidUntil (snd (snd (finalizePaidOrder pendingOrders paidStore 5000 ''o'' (Some 5000)))) ''t''"
proof -
  have l: "redeemList dupStore =
      [\<lparr>codeHash = ''X'', durationMs = Some 1000, usedAt = 0, usedBy = []\<rparr>,
       \<lparr>codeHash = ''X'', durationMs = Some 1000, usedAt = 0, usedBy = []\<rparr>]"
    by (simp add: dupStore_def addRedeemCode_def truthy_def trialConfig_def freshStore_def
        createSubscriptionStore_def onPersist_def)
  have h: "\<forall>x\<in>set (redeemList dupStore). case durationMs x of None \<Rightarrow> True | Some n \<Rightarrow> 0 \<le> n"
    by (simp add: l)
  have s1: "isSafeInteger 11000" and s2: "isSafeInteger 6000" and s3: "isSafeInteger 2592010000"
    by (simp_all add: isSafeInteger_def MAX_SAFE_INTEGER_def)
  have g0: "getPaidUntil dupStore ''a'' = 0"
    by (simp add: dupStore_def addRedeemCode_def truthy_def trialConfig_def freshStore_def
        createSubscriptionStore_def onPersist_def getPaidUntil_def)
  have g: "getPaidUntil paidStore ''t'' = 10000"
    by (simp add: paidStore_def createSubscriptionStore_def getPaidUntil_def parseIntString_def)
  have a1: "fst (activatePlan paidStore 5000 (Some ''t'') (Some 1000) (Some 5000)) = Some 11000"
    by (simp add: activatePlan_accepts norm_t g orNow_def)
  have g1: "getPaidUntil (snd (activatePlan paidStore 5000 (Some ''t'') (Some 1000) (Some 5000))) ''t'' = 11000"
    by (simp add: activatePlan_accepts norm_t getPaidUntil_setPaidUntil g orNow_def parseIntString_def)
  have hc: "hashCode trialConfig ''X'' = ''X''" by (simp add: trialConfig_def)
  have r1: "fst (redeem trialConfig dupStore 5000 (Some ''a'') ''X'') = RedeemOk (Some 6000)"
    by (simp add: redeem_def norm_a l hc Let_def activatePlan_accepts g0 orNow_def)
  have g2: "getPaidUntil (snd (redeem trialConfig dupStore 5000 (Some ''a'') ''X'')) ''a'' = 6000"
    by (simp add: redeem_def norm_a l hc Let_def activatePlan_accepts getPaidUntil_setPaidUntil g0
        orNow_def parseIntString_def)
  have o: "pendingOrders ''o'' = Some \<lparr>o_baseId = ''t'', o_planId = ''monthly'', o_price = 99 / 10,
        o_status = ''pending'', o_createdAt = 4000, o_paidAt = None, o_paidUntil = None\<rparr>"
    by (simp add: pendingOrders_def)
  have pl: "find (\<lambda>item. plan_id item = ''monthly'') billingPlans =
      Some \<lparr>plan_id = ''monthly'', plan_price = 99 / 10, plan_durationMs = 2592000000\<rparr>"
    by (simp add: billingPlans_def)
  have f1: "fst (finalizePaidOrder pendingOrders paidStore 5000 ''o'' (Some 5000))
      = Finalized (Some 2592010000)"
    by (simp add: finalizePaidOrder_def o pl Let_def activatePlan_accepts norm_t g orNow_def)
  have g3: "getPaidUntil (snd (snd (finalizePaidOrder pendingOrders paidStore 5000 ''o'' (Some 5000)))) ''t''
      = 2592010000"
    by (simp add: finalizePaidOrder_def o pl Let_def activatePlan_accepts norm_t g orNow_def
        getPaidUntil_setPaidUntil parseIntString_def)
  note w1 = paidUntil_forward_positive [of 1000 paidStore 5000 "Some ''t''" "Some 5000" "''t''"
        trialConfig "''X''" pendingOrders "''o''"]
  note w2 = paidUntil_forward_positive [of 1000 dupStore 5000 "Some ''a''" "Some 5000" "''a''"
        trialConfig "''X''" pendingOrders "''o''"]
  have c1: "getPaidUntil paidStore ''t''
        < getPaidUntil (snd (activatePlan paidStore 5000 (Some ''t'') (Some 1000) (Some 5000))) ''t''"
    using w1 [THEN conjunct2, THEN conjunct1] a1 s1 norm_t by simp
  have c2: "getPaidUntil dupStore ''a''
        \<le> getPaidUntil (snd (redeem trialConfig dupStore 5000 (Some ''a'') ''X'')) ''a''"
    using w2 [THEN conjunct2, THEN conjunct2, THEN conjunct1] h r1 s2 by simp
  have c3: "getPaidUntil paidStore ''t''
        \<le> getPaidUntil (snd (snd (finalizePaidOrder pendingOrders paidStore 5000 ''o'' (Some 5000)))) ''t''"
    using w1 [THEN conjunct2, THEN conjunct2, THEN conjunct2] f1 s3 by simp
  show ?thesis
    using g a1 s1 g1 c1 g0 r1 s2 g2 c2 f1 s3 g3 c3 by simp
qed

section \<open>Properties of the trial counter\<close>

lemma isPaid_info_unpaid:
  "b \<notin> set (adminSet st) \<Longrightarrow> b \<notin> paidBaseIds cfg \<Longrightarrow>
   \<not> (getPaidUntil st b \<noteq> 0 \<and> now \<le> getPaidUntil st b) \<Longrightarrow>
   \<not> paid (isPaid_info cfg st now b)"
  by (auto simp: isPaid_info_def Let_def)

lemma consume_trial_left:
  assumes "normalizeBaseId raw \<noteq> []" "\<not> allowBypass cfg"
    "\<not> paid (isPaid_info cfg st now (normalizeBaseId raw))"
    "0 < getFreeRemaining cfg st (normalizeBaseId raw)"
  shows "snd (consume cfg st now raw) =
           st\<lparr>usage := (usage st)(normalizeBaseId raw \<mapsto>
                 (case usage st (normalizeBaseId raw) of None \<Rightarrow> 0 | Some n \<Rightarrow> n) + 1)\<rparr>"
    and "allowed (fst (consume cfg st now raw))"
    and "freeRemaining (fst (consume cfg st now raw))
           = getFreeRemaining cfg (snd (consume cfg st now raw)) (normalizeBaseId raw)"
    and "getFreeRemaining cfg (snd (consume cfg st now raw)) (normalizeBaseId raw)
           = getFreeRemaining cfg st (normalizeBaseId raw) - 1"
  using assms by (auto simp: consume_def Let_def getFreeRemaining_def split: option.splits)

lemma consume_trial_used_up:
  assumes "normalizeBaseId raw \<noteq> []" "\<not> allowBypass cfg"
    "\<not> paid (isPaid_info cfg st now (normalizeBaseId raw))"
    "getFreeRemaining cfg st (normalizeBaseId raw) = 0"
  shows "snd (consume cfg st now raw) = st"
    and "\<not> allowed (fst (consume cfg st now raw))"
    and "freeRemaining (fst (consume cfg st now raw)) = 0"
  using assms by (auto simp: consume_def Let_def)

lemma consume_repeat_denied:
  assumes "normalizeBaseId raw \<noteq> []" "\<not> allowBypass cfg"
    "\<forall>n\<in>set nows. \<not> paid (isPaid_info cfg st n (normalizeBaseId raw))"
    "getFreeRemaining cfg st (normalizeBaseId raw) = 0"
  shows "performAll cfg st (map (\<lambda>n. (n, Consume raw)) nows) = st
       \<and> (\<forall>s\<in>set (statuses cfg st (map (\<lambda>n. (n, Consume raw)) nows)).
             \<not> allowed s \<and> freeRemaining s = 0)"
  using assms(3)
proof (induction nows)
  case Nil
  show ?case by (simp add: performAll_def)
next
  case (Cons n ns)
  then have u: "\<not> paid (isPaid_info cfg st n (normalizeBaseId raw))" by simp
  note c = consume_trial_used_up [OF assms(1) assms(2) u assms(4)]
  from Cons have "performAll cfg st (map (\<lambda>n. (n, Consume raw)) ns) = st
       \<and> (\<forall>s\<in>set (statuses cfg st (map (\<lambda>n. (n, Consume raw)) ns)).
             \<not> allowed s \<and> freeRemaining s = 0)" by simp
  with c show ?case by (simp add: performAll_def)
qed

text \<open>
  Claim C5. For a tenant key that is not blank, with the bypass flag off, the tenant neither
  in the admin set nor in the static paid list and without an unexpired paid-until at the
  clock readings concerned: when free uses remain, \<open>consume\<close> adds exactly one to the
  tenant's trial counter (and changes nothing else), allows the call and reports the
  remaining uses after the increment, one fewer than before; when none remain, \<open>consume\<close>
  denies the call with \<open>freeRemaining = 0\<close> and leaves the store unchanged, and so does every
  repetition of the call.
\<close>

theorem consume_trial:
  "normalizeBaseId raw \<noteq> [] \<and> \<not> allowBypass cfg
   \<and> normalizeBaseId raw \<notin> set (adminSet st) \<and> normalizeBaseId raw \<notin> paidBaseIds cfg
   \<and> (\<forall>n\<in>set (now # nows).
         \<not> (getPaidUntil st (normalizeBaseId raw) \<noteq> 0 \<and> n \<le> getPaidUntil st (normalizeBaseId raw)))
   \<longrightarrow>
     (0 < getFreeRemaining cfg st (normalizeBaseId raw) \<longrightarrow>
        snd (consume cfg st now raw) =
          st\<lparr>usage := (usage st)(normalizeBaseId raw \<mapsto>
                (case usage st (normalizeBaseId raw) of None \<Rightarrow> 0 | Some n \<Rightarrow> n) + 1)\<rparr>
        \<and> allowed (fst (consume cfg st now raw))
        \<and> freeRemaining (fst (consume cfg st now raw))
             = getFreeRemaining cfg (snd (consume cfg st now raw)) (normalizeBaseId raw)
        \<and> getFreeRemaining cfg (snd (consume cfg st now raw)) (normalizeBaseId raw)
             = getFreeRemaining cfg st (normalizeBaseId raw) - 1)
     \<and> (getFreeRemaining cfg st (normalizeBaseId raw) = 0 \<longrightarrow>
        snd (consume cfg st now raw) = st
        \<and> \<not> allowed (fst (consume cfg st now raw))
        \<and> freeRemaining (fst (consume cfg st now raw)) = 0
        \<and> performAll cfg st (map (\<lambda>n. (n, Consume raw)) nows) = st
        \<and> (\<forall>s\<in>set (statuses cfg st (map (\<lambda>n. (n, Consume raw)) nows)).
              \<not> allowed s \<and> freeRemaining s = 0))"
proof (intro impI)
  assume a: "normalizeBaseId raw \<noteq> [] \<and> \<not> allowBypass cfg
   \<and> normalizeBaseId raw \<notin> set (adminSet st) \<and> normalizeBaseId raw \<notin> paidBaseIds cfg
   \<and> (\<forall>n\<in>set (now # nows).
         \<not> (getPaidUntil st (normalizeBaseId raw) \<noteq> 0 \<and> n \<le> getPaidUntil st (normalizeBaseId raw)))"
  then have nb: "normalizeBaseId raw \<noteq> []" and nby: "\<not> allowBypass cfg" by simp_all
  from a have un: "\<forall>n\<in>set (now # nows). \<not> paid (isPaid_info cfg st n (normalizeBaseId raw))"
    using isPaid_info_unpaid [of "normalizeBaseId raw" st cfg] by blast
  then have u0: "\<not> paid (isPaid_info cfg st now (normalizeBaseId raw))"
    and us: "\<forall>n\<in>set nows. \<not> paid (isPaid_info cfg st n (normalizeBaseId raw))" by simp_all
  show "(0 < getFreeRemaining cfg st (normalizeBaseId raw) \<longrightarrow>
        snd (consume cfg st now raw) =
          st\<lparr>usage := (usage st)(normalizeBaseId raw \<mapsto>
                (case usage st (normalizeBaseId raw) of None \<Rightarrow> 0 | Some n \<Rightarrow> n) + 1)\<rparr>
        \<and> allowed (fst (consume cfg st now raw))
        \<and> freeRemaining (fst (consume cfg st now raw))
             = getFreeRemaining cfg (snd (consume cfg st now raw)) (normalizeBaseId raw)
        \<and> getFreeRemaining cfg (snd (consume cfg st now raw)) (normalizeBaseId raw)
             = getFreeRemaining cfg st (normalizeBaseId raw) - 1)
     \<and> (getFreeRemaining cfg st (normalizeBaseId raw) = 0 \<longrightarrow>
        snd (consume cfg st now raw) = st
        \<and> \<not> allowed (fst (consume cfg st now raw))
        \<and> freeRemaining (fst (consume cfg st now raw)) = 0
        \<and> performAll cfg st (map (\<lambda>n. (n, Consume raw)) nows) = st
        \<and> (\<forall>s\<in>set (statuses cfg st (map (\<lambda>n. (n, Consume raw)) nows)).
              \<not> allowed s \<and> freeRemaining s = 0))"
    using consume_trial_left [OF nb nby u0] consume_trial_used_up [OF nb nby u0]
      consume_repeat_denied [OF nb nby us]
    by blast
qed

lemma usage_fresh: "usage freshStore = Map.empty"
  by (simp add: freshStore_def createSubscriptionStore_def)

lemma consume_fresh:
  "consume trialConfig freshStore 5000 (Some ''t'') =
     (\<lparr>baseId = ''t'', isPaid = False, freeRemaining = 0, allowed = True,
       message = TrialUsedUp, paidUntil = Some 0\<rparr>,
      freshStore\<lparr>usage := [''t'' \<mapsto> 1]\<rparr>)"
  by (simp add: consume_def norm_t trialConfig_def isPaid_info_def getFreeRemaining_def
      getPaidUntil_def freshStore_def createSubscriptionStore_def Let_def)

theorem consume_trial_witness:
  "normalizeBaseId (Some ''t'') \<noteq> []
   \<and> \<not> allowBypass trialConfig
   \<and> getFreeRemaining trialConfig freshStore ''t'' = 1
   \<and> allowed (fst (consume trialConfig freshStore 5000 (Some ''t'')))
   \<and> freeRemaining (fst (consume trialConfig freshStore 5000 (Some ''t''))) = 0
   \<and> usage usedStore ''t'' = Some 1
   \<and> getFreeRemaining trialConfig usedStore ''t'' = 0
   \<and> \<not> allowed (fst (consume trialConfig usedStore 6000 (Some ''t'')))
   \<and> performAll trialConfig usedStore [(7000, Consume (Some ''t'')), (8000, Consume (Some ''t''))]
        = usedStore"
proof -
  have u: "usedStore = freshStore\<lparr>usage := [''t'' \<mapsto> 1]\<rparr>"
    by (simp add: usedStore_def consume_fresh)
  have f1: "getFreeRemaining trialConfig freshStore ''t'' = 1"
    by (simp add: getFreeRemaining_def usage_fresh trialConfig_def)
  have f0: "getFreeRemaining trialConfig usedStore ''t'' = 0"
    by (simp add: getFreeRemaining_def u trialConfig_def)
  have p0: "getPaidUntil freshStore ''t'' = 0" "getPaidUntil usedStore ''t'' = 0"
    by (simp_all add: u getPaidUntil_def freshStore_def createSubscriptionStore_def)
  have a0: "adminSet freshStore = []" "adminSet usedStore = []"
    by (simp_all add: u freshStore_def createSubscriptionStore_def)
  have c: "\<not> allowBypass trialConfig" "paidBaseIds trialConfig = {}"
    by (simp_all add: trialConfig_def)
  have us: "usage usedStore ''t'' = Some 1" by (simp add: u)
  note w1 = consume_trial [of "Some ''t''" trialConfig freshStore 5000 "[]"]
  note w2 = consume_trial [of "Some ''t''" trialConfig usedStore 6000 "[7000, 8000]"]
  show ?thesis
    using w1 w2 f1 f0 p0 a0 c us norm_t by (simp add: usedStore_def [symmetric])
qed

lemma usage_activatePlan [simp]: "usage (snd (activatePlan st now b d paidAt)) = usage st"
  by (simp add: activatePlan_def Let_def setPaidUntil_def onPersist_def split: option.splits)

lemma usage_setAdmin [simp]: "usage (snd (setAdmin st b e)) = usage st"
  by (simp add: setAdmin_def Let_def onPersist_def)

lemma usage_addRedeemCode [simp]: "usage (snd (addRedeemCode cfg st code d)) = usage st"
  by (simp add: addRedeemCode_def onPersist_def)

lemma usage_redeem [simp]: "usage (snd (redeem cfg st now b code)) = usage st"
proof -
  have "\<And>d. usage (snd (activatePlan st now (Some (normalizeBaseId b)) d (Some now))) = usage st"
    by simp
  then show ?thesis
    by (auto simp: redeem_def Let_def onPersist_def split: option.splits)
qed

lemma usage_consume_nonneg:
  assumes "\<forall>b n. usage st b = Some n \<longrightarrow> 0 \<le> n"
  shows "\<forall>b n. usage (snd (consume cfg st now raw)) b = Some n \<longrightarrow> 0 \<le> n"
  using assms by (auto simp: consume_def Let_def split: option.splits if_splits)

lemma usage_perform_nonneg:
  assumes "\<forall>b n. usage st b = Some n \<longrightarrow> 0 \<le> n"
  shows "\<forall>b n. usage (perform cfg st c) b = Some n \<longrightarrow> 0 \<le> n"
proof (cases c)
  case (Pair now op)
  show ?thesis
  proof (cases op)
    case (Consume raw)
    with Pair usage_consume_nonneg [OF assms] show ?thesis by simp
  qed (use Pair assms in simp_all)
qed

lemma getFreeRemaining_bounds:
  assumes "0 \<le> trialLimit cfg" "\<forall>b n. usage st b = Some n \<longrightarrow> 0 \<le> n"
  shows "0 \<le> getFreeRemaining cfg st b \<and> getFreeRemaining cfg st b \<le> trialLimit cfg"
  using assms by (auto simp: getFreeRemaining_def split: option.splits)

lemma getStatus_bounds:
  assumes "0 \<le> trialLimit cfg" "\<forall>b n. usage st b = Some n \<longrightarrow> 0 \<le> n"
  shows "0 \<le> freeRemaining (getStatus cfg st now raw)
       \<and> freeRemaining (getStatus cfg st now raw) \<le> trialLimit cfg"
  using assms(1) getFreeRemaining_bounds [OF assms, of "normalizeBaseId raw"]
  by (simp add: getStatus_def Let_def)

lemma consume_bounds:
  assumes "0 \<le> trialLimit cfg" "\<forall>b n. usage st b = Some n \<longrightarrow> 0 \<le> n"
  shows "0 \<le> freeRemaining (fst (consume cfg st now raw))
       \<and> freeRemaining (fst (consume cfg st now raw)) \<le> trialLimit cfg"
proof -
  have "\<forall>b n. usage (snd (consume cfg st now raw)) b = Some n \<longrightarrow> 0 \<le> n"
    by (rule usage_consume_nonneg [OF assms(2)])
  from getFreeRemaining_bounds [OF assms(1) this, of "normalizeBaseId raw"] assms(1)
  show ?thesis
    by (auto simp: consume_def Let_def)
qed

lemma statuses_bounds:
  assumes "0 \<le> trialLimit cfg"
  shows "(\<forall>b n. usage st b = Some n \<longrightarrow> 0 \<le> n) \<Longrightarrow>
         \<forall>s\<in>set (statuses cfg st calls). 0 \<le> freeRemaining s \<and> freeRemaining s \<le> trialLimit cfg"
proof (induction calls arbitrary: st)
  case Nil
  show ?case by simp
next
  case (Cons c cs)
  obtain now op where c: "c = (now, op)" by (cases c)
  have nx: "\<forall>b n. usage (perform cfg st c) b = Some n \<longrightarrow> 0 \<le> n"
    by (rule usage_perform_nonneg [OF Cons.prems])
  show ?case
  proof (cases op)
    case (GetStatus raw)
    with c Cons.IH [OF Cons.prems] getStatus_bounds [OF assms Cons.prems] show ?thesis by simp
  next
    case (Consume raw)
    with c nx have "\<forall>b n. usage (snd (consume cfg st now raw)) b = Some n \<longrightarrow> 0 \<le> n" by simp
    from Cons.IH [OF this] consume_bounds [OF assms Cons.prems] c Consume show ?thesis by simp
  next
    case (ActivatePlan x1 x2 x3)
    with c Cons.IH [OF nx] show ?thesis by simp
  next
    case (SetAdmin x1 x2)
    with c Cons.IH [OF nx] show ?thesis by simp
  next
    case (AddRedeemCode x1 x2)
    with c Cons.IH [OF nx] show ?thesis by simp
  next
    case (Redeem x1 x2)
    with c Cons.IH [OF nx] show ?thesis by simp
  qed
qed

text \<open>
  Claim C7. With a trial limit that is not negative, every status returned by \<open>getStatus\<close>
  or \<open>consume\<close> in any history of calls on a newly created store (whatever other calls
  of the store come in between) has \<open>0 \<le> freeRemaining \<le> trialLimit\<close>.
\<close>

theorem freeRemaining_bounded:
  "0 \<le> trialLimit cfg \<Longrightarrow>
   \<forall>s\<in>set (statuses cfg (createSubscriptionStore paidUntils adminBaseIds codes) calls).
     0 \<le> freeRemaining s \<and> freeRemaining s \<le> trialLimit cfg"
  by (rule statuses_bounds) (simp_all add: createSubscriptionStore_def)

theorem freeRemaining_bounded_witness:
  "0 \<le> trialLimit trialConfig
   \<and> 0 \<le> freeRemaining (fst (consume trialConfig freshStore 5000 (Some ''t'')))
   \<and> freeRemaining (fst (consume trialConfig freshStore 5000 (Some ''t''))) \<le> trialLimit trialConfig
   \<and> 0 \<le> freeRemaining (getStatus trialConfig usedStore 6000 (Some ''t''))
   \<and> freeRemaining (getStatus trialConfig usedStore 6000 (Some ''t'')) \<le> trialLimit trialConfig"
proof -
  have t: "0 \<le> trialLimit trialConfig" by (simp add: trialConfig_def)
  show ?thesis
    using t freeRemaining_bounded [OF t, of Map.empty "[]" "[]"
        "[(5000, Consume (Some ''t'')), (6000, GetStatus (Some ''t''))]"]
    by (simp add: freshStore_def [symmetric] usedStore_def [symmetric])
qed

section \<open>Properties of redeem codes\<close>

lemma findFirst_append:
  "findFirst P xs = Some r \<Longrightarrow> findFirst P (xs @ ys) = Some r"
  by (induction xs arbitrary: r) (auto split: if_splits option.splits)

lemma findFirst_update_other:
  "j < length xs \<Longrightarrow> \<not> P (xs ! j) \<Longrightarrow> \<not> P y \<Longrightarrow> findFirst P (xs[j := y]) = findFirst P xs"
proof (induction xs arbitrary: j)
  case Nil
  then show ?case by simp
next
  case (Cons x xs)
  then show ?case by (cases j) auto
qed

lemma findFirst_update_same:
  "findFirst P xs = Some (i, x) \<Longrightarrow> P y \<Longrightarrow> findFirst P (xs[i := y]) = Some (i, y)"
proof (induction xs arbitrary: i)
  case Nil
  then show ?case by simp
next
  case (Cons z zs)
  then show ?case by (cases "P z") (auto split: option.splits)
qed

lemma redeemList_activatePlan [simp]:
  "redeemList (snd (activatePlan st now b d paidAt)) = redeemList st"
  by (simp add: activatePlan_def Let_def setPaidUntil_def onPersist_def split: option.splits)

lemma redeemList_onPersist [simp]: "redeemList (onPersist st) = redeemList st"
  by (simp add: onPersist_def)

lemma spent_redeem_fails:
  "spent (hashCode cfg code) st \<Longrightarrow> normalizeBaseId b \<noteq> [] \<Longrightarrow> code \<noteq> [] \<Longrightarrow>
   redeem cfg st now b code = (RedeemFailed AlreadyUsed, st)"
  by (auto simp: spent_def redeem_def Let_def split: option.splits)

lemma redeem_ok_cases:
  assumes "fst (redeem cfg st now b code) = RedeemOk until"
  obtains i item where "normalizeBaseId b \<noteq> []" "code \<noteq> []"
    "findFirst (\<lambda>x. codeHash x = hashCode cfg code) (redeemList st) = Some (i, item)"
    "\<not> (usedAt item \<noteq> 0 \<and> usedBy item \<noteq> [])"
    "redeemList (snd (redeem cfg st now b code))
       = (redeemList st)[i := item\<lparr>usedAt := now, usedBy := normalizeBaseId b\<rparr>]"
  using assms
  by (auto simp: redeem_def Let_def split: option.splits if_splits)

lemma redeem_ok_spent:
  assumes "now \<noteq> 0" "fst (redeem cfg st now b code) = RedeemOk until"
  shows "spent (hashCode cfg code) (snd (redeem cfg st now b code))"
proof -
  from assms(2) obtain i item where nb: "normalizeBaseId b \<noteq> []"
    and f: "findFirst (\<lambda>x. codeHash x = hashCode cfg code) (redeemList st) = Some (i, item)"
    and l: "redeemList (snd (redeem cfg st now b code))
       = (redeemList st)[i := item\<lparr>usedAt := now, usedBy := normalizeBaseId b\<rparr>]"
    by (rule redeem_ok_cases)
  from findFirst_Some [OF f] have "codeHash item = hashCode cfg code" by simp
  then have "codeHash (item\<lparr>usedAt := now, usedBy := normalizeBaseId b\<rparr>) = hashCode cfg code" by simp
  from findFirst_update_same [where P = "\<lambda>x. codeHash x = hashCode cfg code", OF f this]
  show ?thesis using assms(1) nb by (simp add: spent_def l)
qed

lemma spent_redeem:
  assumes "spent h st"
  shows "spent h (snd (redeem cfg st now b code))"
proof (cases "fst (redeem cfg st now b code)")
  case (RedeemFailed e)
  then have "snd (redeem cfg st now b code) = st"
    by (auto simp: redeem_def Let_def split: option.splits if_splits)
  with assms show ?thesis by simp
next
  case (RedeemOk until)
  then obtain i item where nb: "normalizeBaseId b \<noteq> []" and ne: "code \<noteq> []"
    and f: "findFirst (\<lambda>x. codeHash x = hashCode cfg code) (redeemList st) = Some (i, item)"
    and l: "redeemList (snd (redeem cfg st now b code))
       = (redeemList st)[i := item\<lparr>usedAt := now, usedBy := normalizeBaseId b\<rparr>]"
    by (rule redeem_ok_cases)
  have neq: "hashCode cfg code \<noteq> h"
  proof
    assume "hashCode cfg code = h"
    with assms have "redeem cfg st now b code = (RedeemFailed AlreadyUsed, st)"
      using spent_redeem_fails [OF _ nb ne] by blast
    with RedeemOk show False by simp
  qed
  from findFirst_Some [OF f] have i: "i < length (redeemList st)" "redeemList st ! i = item"
    "codeHash item = hashCode cfg code" by simp_all
  have "findFirst (\<lambda>x. codeHash x = h)
          ((redeemList st)[i := item\<lparr>usedAt := now, usedBy := normalizeBaseId b\<rparr>])
        = findFirst (\<lambda>x. codeHash x = h) (redeemList st)"
    using i neq by (intro findFirst_update_other) simp_all
  with assms show ?thesis by (simp add: spent_def l)
qed

lemma spent_perform:
  assumes "spent h st"
  shows "spent h (perform cfg st c)"
proof (cases c)
  case (Pair now op)
  show ?thesis
  proof (cases op)
    case (GetStatus x)
    with Pair assms show ?thesis by simp
  next
    case (Consume x)
    with Pair assms show ?thesis
      by (auto simp: spent_def consume_def Let_def)
  next
    case (ActivatePlan x1 x2 x3)
    with Pair assms show ?thesis by (simp add: spent_def)
  next
    case (SetAdmin x1 x2)
    with Pair assms show ?thesis by (simp add: spent_def setAdmin_def Let_def)
  next
    case (AddRedeemCode code d)
    with Pair assms show ?thesis
      by (auto simp: spent_def addRedeemCode_def findFirst_append split: option.splits)
  next
    case (Redeem b code)
    with Pair spent_redeem [OF assms] show ?thesis by simp
  qed
qed

lemma spent_performAll: "spent h st \<Longrightarrow> spent h (performAll cfg st calls)"
  unfolding performAll_def
  by (induction calls arbitrary: st) (simp_all add: spent_perform)

text \<open>
  Within the life of one store a code that has been redeemed (at a clock reading other than
  0, so that \<^verbatim>\<open>usedAt\<close> is truthy) is refused from then on, for every tenant and after any
  history of calls of the store, among them further \<open>addRedeemCode\<close> calls with the same
  code.
\<close>

lemma redeem_once_per_store:
  assumes "now \<noteq> 0" "fst (redeem cfg st now b code) = RedeemOk until" "normalizeBaseId b' \<noteq> []"
  shows "redeem cfg (performAll cfg (snd (redeem cfg st now b code)) calls) now' b' code
         = (RedeemFailed AlreadyUsed, performAll cfg (snd (redeem cfg st now b code)) calls)"
proof -
  from assms(2) have ne: "code \<noteq> []" by (rule redeem_ok_cases)
  have "spent (hashCode cfg code) (snd (redeem cfg st now b code))"
    by (rule redeem_ok_spent [OF assms(1) assms(2)])
  then have "spent (hashCode cfg code) (performAll cfg (snd (redeem cfg st now b code)) calls)"
    by (rule spent_performAll)
  then show ?thesis by (rule spent_redeem_fails [OF _ assms(3) ne])
qed

lemma hash_X: "hashCode trialConfig ''X'' = ''X''" by (simp add: trialConfig_def)

lemma dupStore_eval:
  "redeemList dupStore =
      [\<lparr>codeHash = ''X'', durationMs = Some 1000, usedAt = 0, usedBy = []\<rparr>,
       \<lparr>codeHash = ''X'', durationMs = Some 1000, usedAt = 0, usedBy = []\<rparr>]"
  "paidUntilMap dupStore = Map.empty"
  "adminSet dupStore = []"
  by (simp_all add: dupStore_def addRedeemCode_def truthy_def trialConfig_def freshStore_def
        createSubscriptionStore_def onPersist_def)

lemma first_redeem:
  "fst (redeem trialConfig dupStore 5000 (Some ''a'') ''X'') = RedeemOk (Some 6000)"
  by (simp add: redeem_def norm_a dupStore_eval hash_X Let_def activatePlan_def orNow_def
      getPaidUntil_def)

lemma redeemed_persisted:
  "\<exists>rest. persisted redeemedStore =
     \<lparr>paidUntilByBaseId = Some [''a'' \<mapsto> 6000], adminBaseIdList = Some [],
      redeemCodes = Some
        [\<lparr>codeHash = ''X'', durationMs = Some 1000, usedAt = 5000, usedBy = ''a''\<rparr>,
         \<lparr>codeHash = ''X'', durationMs = Some 1000, usedAt = 0, usedBy = []\<rparr>],
      pricingByBaseId = None, usageByBaseId = None, dailyUsageByBaseId = None\<rparr> # rest"
  by (simp add: redeemedStore_def redeem_def norm_a dupStore_eval hash_X Let_def activatePlan_def
      orNow_def getPaidUntil_def setPaidUntil_def onPersist_def)

lemma writeStore_path: "storePath (writeStore sk data) = storePath sk"
  by (simp add: writeStore_def Let_def)

lemma foldl_writeStore_path: "storePath (foldl writeStore sk xs) = storePath sk"
  by (induction xs arbitrary: sk) (simp_all add: writeStore_path)

lemma persistAll_last:
  assumes "persisted st = snap # rest" "storePath sk \<noteq> []"
    "paidUntilByBaseId snap = Some pu" "adminBaseIdList snap = Some ad" "redeemCodes snap = Some rc"
  shows "c_paidUntilByBaseId (cached (persistAll sk st)) = pu"
    and "c_adminBaseIdList (cached (persistAll sk st)) = ad"
    and "c_redeemCodes (cached (persistAll sk st)) = rc"
  using assms foldl_writeStore_path [of sk "rev rest"]
  by (simp_all add: persistAll_def writeStore_def coalesce_def Let_def)

lemma file_after_redeem:
  "c_redeemCodes (cached (persistAll storeFile redeemedStore)) =
     [\<lparr>codeHash = ''X'', durationMs = Some 1000, usedAt = 5000, usedBy = ''a''\<rparr>,
      \<lparr>codeHash = ''X'', durationMs = Some 1000, usedAt = 0, usedBy = []\<rparr>]"
  "c_paidUntilByBaseId (cached (persistAll storeFile redeemedStore)) = [''a'' \<mapsto> 6000]"
  "c_adminBaseIdList (cached (persistAll storeFile redeemedStore)) = []"
proof -
  from redeemed_persisted obtain rest where r: "persisted redeemedStore =
     \<lparr>paidUntilByBaseId = Some [''a'' \<mapsto> 6000], adminBaseIdList = Some [],
      redeemCodes = Some
        [\<lparr>codeHash = ''X'', durationMs = Some 1000, usedAt = 5000, usedBy = ''a''\<rparr>,
         \<lparr>codeHash = ''X'', durationMs = Some 1000, usedAt = 0, usedBy = []\<rparr>],
      pricingByBaseId = None, usageByBaseId = None, dailyUsageByBaseId = None\<rparr> # rest" by blast
  have s: "storePath storeFile \<noteq> []" by (simp add: storeFile_def)
  show "c_redeemCodes (cached (persistAll storeFile redeemedStore)) =
     [\<lparr>codeHash = ''X'', durationMs = Some 1000, usedAt = 5000, usedBy = ''a''\<rparr>,
      \<lparr>codeHash = ''X'', durationMs = Some 1000, usedAt = 0, usedBy = []\<rparr>]"
    by (rule persistAll_last(3) [OF r s]) simp_all
  show "c_paidUntilByBaseId (cached (persistAll storeFile redeemedStore)) = [''a'' \<mapsto> 6000]"
    by (rule persistAll_last(1) [OF r s]) simp_all
  show "c_adminBaseIdList (cached (persistAll storeFile redeemedStore)) = []"
    by (rule persistAll_last(2) [OF r s]) simp_all
qed

lemma restarted_eval:
  "redeemList restartedStore = [\<lparr>codeHash = ''X'', durationMs = Some 1000, usedAt = 0, usedBy = []\<rparr>]"
  "paidUntilMap restartedStore = [''a'' \<mapsto> 6000]"
  by (simp_all add: restartedStore_def initStores_def file_after_redeem mergeRedeemCodes_def
      createSubscriptionStore_def Let_def)

text \<open>
  Claim C9 fails in the code across a restart. The same code is added twice and redeemed
  once, which marks the first record used; the store file then holds the used record and its
  unused duplicate. \<open>mergeRedeemCodes\<close>, which builds the code list at the next start-up,
  keeps for a digest the fields of its last record, here the unused one, and the same code
  is redeemed a second time.
\<close>

theorem redeem_again_after_restart:
  "fst (redeem trialConfig dupStore 5000 (Some ''a'') ''X'') = RedeemOk (Some 6000)
   \<and> c_redeemCodes (cached (persistAll storeFile redeemedStore)) =
       [\<lparr>codeHash = ''X'', durationMs = Some 1000, usedAt = 5000, usedBy = ''a''\<rparr>,
        \<lparr>codeHash = ''X'', durationMs = Some 1000, usedAt = 0, usedBy = []\<rparr>]
   \<and> redeemList restartedStore =
       [\<lparr>codeHash = ''X'', durationMs = Some 1000, usedAt = 0, usedBy = []\<rparr>]
   \<and> fst (redeem trialConfig restartedStore 7000 (Some ''b'') ''X'') = RedeemOk (Some 8000)"
proof -
  have "fst (redeem trialConfig restartedStore 7000 (Some ''b'') ''X'') = RedeemOk (Some 8000)"
    by (simp add: redeem_def norm_b restarted_eval hash_X Let_def activatePlan_def orNow_def
        getPaidUntil_def)
  then show ?thesis
    using first_redeem file_after_redeem(1) restarted_eval(1) by simp
qed

theorem redeem_again_after_restart_witness:
  "fst (redeem trialConfig restartedStore 7000 (Some ''b'') ''X'') \<noteq> RedeemFailed AlreadyUsed"
  using redeem_again_after_restart by simp

lemma hash_S: "hashCode trialConfig ''S'' = ''S''" by (simp add: trialConfig_def)

lemma seedStore_eval:
  "redeemList seedStore =
      [\<lparr>codeHash = ''S'', durationMs = Some 2592000000, usedAt = 0, usedBy = []\<rparr>]"
  "paidUntilMap seedStore = Map.empty"
  "adminSet seedStore = []"
  by (simp_all add: seedStore_def initStores_def emptyCache_def mergeRedeemCodes_def hash_S
      createSubscriptionStore_def Let_def)

lemma seed_persisted:
  "\<exists>rest. persisted seedRedeemedStore =
     \<lparr>paidUntilByBaseId = Some [''a'' \<mapsto> 2592005000], adminBaseIdList = Some [],
      redeemCodes = Some
        [\<lparr>codeHash = ''S'', durationMs = Some 2592000000, usedAt = 5000, usedBy = ''a''\<rparr>],
      pricingByBaseId = None, usageByBaseId = None, dailyUsageByBaseId = None\<rparr> # rest"
  by (simp add: seedRedeemedStore_def redeem_def norm_a seedStore_eval hash_S Let_def activatePlan_def
      orNow_def getPaidUntil_def setPaidUntil_def onPersist_def)

lemma seed_file:
  "c_redeemCodes (cached (persistAll storeFile seedRedeemedStore)) =
     [\<lparr>codeHash = ''S'', durationMs = Some 2592000000, usedAt = 5000, usedBy = ''a''\<rparr>]"
  "c_paidUntilByBaseId (cached (persistAll storeFile seedRedeemedStore)) = [''a'' \<mapsto> 2592005000]"
proof -
  from seed_persisted obtain rest where r: "persisted seedRedeemedStore =
     \<lparr>paidUntilByBaseId = Some [''a'' \<mapsto> 2592005000], adminBaseIdList = Some [],
      redeemCodes = Some
        [\<lparr>codeHash = ''S'', durationMs = Some 2592000000, usedAt = 5000, usedBy = ''a''\<rparr>],
      pricingByBaseId = None, usageByBaseId = None, dailyUsageByBaseId = None\<rparr> # rest" by blast
  have s: "storePath storeFile \<noteq> []" by (simp add: storeFile_def)
  show "c_redeemCodes (cached (persistAll storeFile seedRedeemedStore)) =
     [\<lparr>codeHash = ''S'', durationMs = Some 2592000000, usedAt = 5000, usedBy = ''a''\<rparr>]"
    by (rule persistAll_last(3) [OF r s]) simp_all
  show "c_paidUntilByBaseId (cached (persistAll storeFile seedRedeemedStore)) = [''a'' \<mapsto> 2592005000]"
    by (rule persistAll_last(1) [OF r s]) simp_all
qed

lemma seedRestarted_eval:
  "redeemList seedRestartedStore =
     [\<lparr>codeHash = ''S'', durationMs = Some 2592000000, usedAt = 0, usedBy = []\<rparr>]"
  "paidUntilMap seedRestartedStore = [''a'' \<mapsto> 2592005000]"
  by (simp_all add: seedRestartedStore_def initStores_def seed_file mergeRedeemCodes_def hash_S
      createSubscriptionStore_def Let_def)

text \<open>
  The start-up merge puts the seed codes after the persisted records, so the same happens to
  a seed code without any duplicate having been added: redeemed and persisted as used, it is
  an unused record again after the next start-up.
\<close>

lemma seed_code_redeemed_again:
  "fst (redeem trialConfig seedStore 5000 (Some ''a'') ''S'') = RedeemOk (Some 2592005000)
   \<and> c_redeemCodes (cached (persistAll storeFile seedRedeemedStore)) =
       [\<lparr>codeHash = ''S'', durationMs = Some 2592000000, usedAt = 5000, usedBy = ''a''\<rparr>]
   \<and> redeemList seedRestartedStore =
       [\<lparr>codeHash = ''S'', durationMs = Some 2592000000, usedAt = 0, usedBy = []\<rparr>]
   \<and> fst (redeem trialConfig seedRestartedStore 7000 (Some ''b'') ''S'') = RedeemOk (Some 2592007000)"
proof -
  have 1: "fst (redeem trialConfig seedStore 5000 (Some ''a'') ''S'') = RedeemOk (Some 2592005000)"
    by (simp add: redeem_def norm_a seedStore_eval hash_S Let_def activatePlan_def orNow_def
        getPaidUntil_def)
  have 2: "fst (redeem trialConfig seedRestartedStore 7000 (Some ''b'') ''S'')
      = RedeemOk (Some 2592007000)"
    by (simp add: redeem_def norm_b seedRestarted_eval hash_S Let_def activatePlan_def orNow_def
        getPaidUntil_def)
  show ?thesis using 1 2 seed_file(1) seedRestarted_eval(1) by simp
qed

lemma mapSet_values: "(k', y) \<in> set (mapSet m k v) \<Longrightarrow> (k', y) \<in> set m \<or> y = v"
  by (induction m) (auto split: if_splits)

lemma merge_fold_values:
  "y \<in> snd ` set (foldl (\<lambda>m item.
                 case item of
                   None \<Rightarrow> m
                 | Some it \<Rightarrow> if codeHash it = [] then m else mapSet m (codeHash it) it)
              acc items) \<Longrightarrow>
   y \<in> snd ` set acc \<or> Some y \<in> set items"
proof (induction items arbitrary: acc)
  case Nil
  then show ?case by simp
next
  case (Cons item items)
  from Cons.IH [OF Cons.prems [simplified]] show ?case
    by (auto split: option.splits if_splits dest: mapSet_values)
qed

lemma mergeRedeemCodes_copies:
  "y \<in> set (mergeRedeemCodes baseList extraList) \<Longrightarrow> Some y \<in> set (baseList @ extraList)"
  using merge_fold_values [of y "[]" "baseList @ extraList"]
  by (simp add: mergeRedeemCodes_def)

lemma mergeRedeemCodes_single:
  "codeHash item \<noteq> [] \<Longrightarrow> mergeRedeemCodes [Some item] [] = [item]"
  by (simp add: mergeRedeemCodes_def)

lemma redeem_falsy:
  assumes "normalizeBaseId b \<noteq> []" "code \<noteq> []"
    "findFirst (\<lambda>x. codeHash x = hashCode cfg code) (redeemList st) = Some (i, item)"
    "\<not> (usedAt item \<noteq> 0 \<and> usedBy item \<noteq> [])"
    "\<not> truthy (durationMs item)"
  shows "redeem cfg st now b code =
           (RedeemOk None,
            onPersist (st\<lparr>redeemList :=
              (redeemList st)[i := item\<lparr>usedAt := now, usedBy := normalizeBaseId b\<rparr>]\<rparr>))"
proof -
  have "activatePlan st now (Some (normalizeBaseId b)) (durationMs item) (Some now) = (None, st)"
    using assms(5) by (simp add: activatePlan_rejects)
  with assms(1-4) show ?thesis
    by (simp add: redeem_def Let_def)
qed

text \<open>
  Claim C10. When the record that \<open>redeem\<close> finds is unused and its duration is missing or
  zero, \<open>redeem\<close> returns \<^verbatim>\<open>{ ok: true, paidUntil: null }\<close>, marks that record used by the
  tenant at the clock reading, and leaves the paid-until map as it was. Such a record can
  come from the persisted snapshot: \<open>mergeRedeemCodes\<close> only copies records (a single record
  with a digest is returned as it is), whatever their duration.
\<close>

theorem redeem_falsy_duration:
  "(normalizeBaseId b \<noteq> [] \<and> code \<noteq> []
    \<and> findFirst (\<lambda>x. codeHash x = hashCode cfg code) (redeemList st) = Some (i, item)
    \<and> \<not> (usedAt item \<noteq> 0 \<and> usedBy item \<noteq> [])
    \<and> \<not> truthy (durationMs item)
    \<longrightarrow>
      redeem cfg st now b code =
        (RedeemOk None,
         onPersist (st\<lparr>redeemList :=
           (redeemList st)[i := item\<lparr>usedAt := now, usedBy := normalizeBaseId b\<rparr>]\<rparr>))
      \<and> paidUntilMap (snd (redeem cfg st now b code)) = paidUntilMap st)
   \<and> (y \<in> set (mergeRedeemCodes baseList extraList) \<longrightarrow> Some y \<in> set (baseList @ extraList))
   \<and> (codeHash item \<noteq> [] \<longrightarrow> mergeRedeemCodes [Some item] [] = [item])"
proof (intro conjI impI)
  assume a: "normalizeBaseId b \<noteq> [] \<and> code \<noteq> []
    \<and> findFirst (\<lambda>x. codeHash x = hashCode cfg code) (redeemList st) = Some (i, item)
    \<and> \<not> (usedAt item \<noteq> 0 \<and> usedBy item \<noteq> [])
    \<and> \<not> truthy (durationMs item)"
  then show r: "redeem cfg st now b code =
        (RedeemOk None,
         onPersist (st\<lparr>redeemList :=
           (redeemList st)[i := item\<lparr>usedAt := now, usedBy := normalizeBaseId b\<rparr>]\<rparr>))"
    by (intro redeem_falsy) simp_all
  show "paidUntilMap (snd (redeem cfg st now b code)) = paidUntilMap st"
    unfolding r by (simp add: onPersist_def)
next
  assume "y \<in> set (mergeRedeemCodes baseList extraList)"
  then show "Some y \<in> set (baseList @ extraList)" by (rule mergeRedeemCodes_copies)
next
  assume "codeHash item \<noteq> []"
  then show "mergeRedeemCodes [Some item] [] = [item]" by (rule mergeRedeemCodes_single)
qed

theorem redeem_falsy_duration_witness:
  "normalizeBaseId (Some ''a'') \<noteq> []
   \<and> \<not> truthy None
   \<and> redeemList brokenStore
        = mergeRedeemCodes [Some \<lparr>codeHash = ''X'', durationMs = None, usedAt = 0, usedBy = []\<rparr>] []
   \<and> fst (redeem trialConfig brokenStore 5000 (Some ''a'') ''X'') = RedeemOk None
   \<and> redeemList (snd (redeem trialConfig brokenStore 5000 (Some ''a'') ''X''))
        = [\<lparr>codeHash = ''X'', durationMs = None, usedAt = 5000, usedBy = ''a''\<rparr>]
   \<and> paidUntilMap (snd (redeem trialConfig brokenStore 5000 (Some ''a'') ''X'')) = paidUntilMap brokenStore"
proof -
  have l: "redeemList brokenStore = [\<lparr>codeHash = ''X'', durationMs = None, usedAt = 0, usedBy = []\<rparr>]"
    by (simp add: brokenStore_def createSubscriptionStore_def)
  have hc: "hashCode trialConfig ''X'' = ''X''" by (simp add: trialConfig_def)
  have f: "findFirst (\<lambda>x. codeHash x = hashCode trialConfig ''X'') (redeemList brokenStore)
      = Some (0, \<lparr>codeHash = ''X'', durationMs = None, usedAt = 0, usedBy = []\<rparr>)"
    by (simp add: l hc)
  have na: "normalizeBaseId (Some ''a'') \<noteq> []" by (simp add: norm_a)
  have fa: "\<not> truthy None" by (simp add: truthy_def)
  have un: "\<not> (usedAt \<lparr>codeHash = ''X'', durationMs = None, usedAt = 0, usedBy = []\<rparr> \<noteq> 0
      \<and> usedBy \<lparr>codeHash = ''X'', durationMs = None, usedAt = 0, usedBy = []\<rparr> \<noteq> [])"
    by simp
  have fd: "\<not> truthy (durationMs \<lparr>codeHash = ''X'', durationMs = None, usedAt = 0, usedBy = []\<rparr>)"
    by (simp add: truthy_def)
  have ne: "''X'' \<noteq> []" by simp
  have ch: "codeHash \<lparr>codeHash = ''X'', durationMs = None, usedAt = 0, usedBy = []\<rparr> \<noteq> []"
    by simp
  note w = redeem_falsy_duration [of "Some ''a''" "''X''" trialConfig brokenStore 0
      "\<lparr>codeHash = ''X'', durationMs = None, usedAt = 0, usedBy = []\<rparr>" 5000
      "\<lparr>codeHash = ''X'', durationMs = None, usedAt = 0, usedBy = []\<rparr>"
      "[Some \<lparr>codeHash = ''X'', durationMs = None, usedAt = 0, usedBy = []\<rparr>]" "[]"]
  note w1 = w [THEN conjunct1, THEN mp, OF conjI [OF na conjI [OF ne conjI [OF f conjI [OF un fd]]]]]
  note w3 = w [THEN conjunct2, THEN conjunct2, THEN mp, OF ch]
  have m: "mergeRedeemCodes [Some \<lparr>codeHash = ''X'', durationMs = None, usedAt = 0, usedBy = []\<rparr>] []
      = [\<lparr>codeHash = ''X'', durationMs = None, usedAt = 0, usedBy = []\<rparr>]"
    by (rule w3)
  have r: "redeem trialConfig brokenStore 5000 (Some ''a'') ''X'' =
        (RedeemOk None,
         onPersist (brokenStore\<lparr>redeemList :=
           (redeemList brokenStore)[0 := \<lparr>codeHash = ''X'', durationMs = None, usedAt = 0, usedBy = []\<rparr>
              \<lparr>usedAt := 5000, usedBy := normalizeBaseId (Some ''a'')\<rparr>]\<rparr>))"
    by (rule w1 [THEN conjunct1])
  have pu: "paidUntilMap (snd (redeem trialConfig brokenStore 5000 (Some ''a'') ''X'')) = paidUntilMap brokenStore"
    by (rule w1 [THEN conjunct2])
  have rl: "redeemList (snd (redeem trialConfig brokenStore 5000 (Some ''a'') ''X''))
        = [\<lparr>codeHash = ''X'', durationMs = None, usedAt = 5000, usedBy = ''a''\<rparr>]"
    unfolding r by (simp add: l norm_a)
  show ?thesis using na fa l m r pu rl by simp
qed

section \<open>Properties of the usage charge bridge\<close>

lemma positive_resolveMinutes:
  "\<not> positive dur \<Longrightarrow> resolveMinutes mins dur units = resolveMinutes mins None units"
  by (auto simp: positive_def resolveMinutes_def split: option.splits)

lemma recordUsage_nonpositive_duration:
  assumes "\<not> positive dur"
  shows "recordUsage dp st now b units mins dur occurredAt
       = recordUsage dp st now b units mins None occurredAt"
  unfolding recordUsage_def positive_resolveMinutes [OF assms] by (rule refl)

lemma recordUsage_resolved_duration:
  "recordUsage dp st now b units mins
     (if positive reg then reg else if positive obs then obs else None) occurredAt
   = recordUsage dp st now b units mins (if positive reg then reg else obs) occurredAt"
  using recordUsage_nonpositive_duration [of obs dp st now b units mins occurredAt]
  by simp

lemma recorder_absent:
  "billingTasks taskId = None \<Longrightarrow>
   createUsageRecorder dp billingTasks st now taskId dur = (None, billingTasks, st)"
  by (simp add: createUsageRecorder_def)

lemma recorder_registered:
  assumes "billingTasks taskId = Some t" "wellRegistered taskId t"
  shows "createUsageRecorder dp billingTasks st now taskId obs =
     (Some (fst (recordUsage dp st now (Some (normalizeBaseId (t_baseId t))) None None
                   (if positive (t_durationMs t) then t_durationMs t else obs) None)),
      billingTasks(taskId := None),
      snd (recordUsage dp st now (Some (normalizeBaseId (t_baseId t))) None None
             (if positive (t_durationMs t) then t_durationMs t else obs) None))"
  using assms
  by (simp add: createUsageRecorder_def Let_def recordUsage_resolved_duration wellRegistered_def)

lemma registerTask_entries:
  assumes "\<forall>k t. billingTasks k = Some t \<longrightarrow> wellRegistered k t"
  shows "\<forall>k t. registerTask billingTasks taskId rawBaseId dur k = Some t \<longrightarrow> wellRegistered k t"
  using assms by (auto simp: registerTask_def Let_def wellRegistered_def normalizeBaseId_idem)

lemma recorder_tasks:
  "fst (snd (createUsageRecorder dp billingTasks st now taskId dur)) = billingTasks
   \<or> fst (snd (createUsageRecorder dp billingTasks st now taskId dur)) = billingTasks(taskId := None)"
  by (auto simp: createUsageRecorder_def Let_def split: option.splits)

lemma recorder_entries:
  assumes "\<forall>k t. billingTasks k = Some t \<longrightarrow> wellRegistered k t"
  shows "\<forall>k t. fst (snd (createUsageRecorder dp billingTasks st now taskId dur)) k = Some t
           \<longrightarrow> wellRegistered k t"
proof (intro allI impI)
  fix k t
  assume h: "fst (snd (createUsageRecorder dp billingTasks st now taskId dur)) k = Some t"
  from recorder_tasks [of dp billingTasks st now taskId dur] h
  have "billingTasks k = Some t" by (auto split: if_splits)
  with assms show "wellRegistered k t" by blast
qed

lemma bridgeStep_entries:
  assumes "\<forall>k t. fst s k = Some t \<longrightarrow> wellRegistered k t"
  shows "\<forall>k t. fst (bridgeStep dp s c) k = Some t \<longrightarrow> wellRegistered k t"
proof (cases s)
  case (Pair billingTasks st)
  obtain now op where c: "c = (now, op)" by (cases c)
  show ?thesis
  proof (cases op)
    case (Register taskId rawBaseId dur)
    with Pair c registerTask_entries [of billingTasks taskId rawBaseId dur] assms show ?thesis by simp
  next
    case (Charge taskId dur)
    with Pair c recorder_entries [of billingTasks dp st now taskId dur] assms show ?thesis by simp
  qed
qed

lemma foldl_bridge_entries:
  "(\<forall>k t. fst s k = Some t \<longrightarrow> wellRegistered k t) \<Longrightarrow>
   \<forall>k t. fst (foldl (bridgeStep dp) s calls) k = Some t \<longrightarrow> wellRegistered k t"
proof (induction calls arbitrary: s)
  case Nil
  then show ?case by simp
next
  case (Cons c cs)
  from Cons.IH [OF bridgeStep_entries [OF Cons.prems]] show ?case by simp
qed

lemma bridgeRun_entries:
  "fst (bridgeRun dp st0 calls) k = Some t \<Longrightarrow> wellRegistered k t"
  using foldl_bridge_entries [of "(Map.empty, st0)" dp calls]
  by (simp add: bridgeRun_def)

text \<open>
  Claim C2. A charge for a task identifier that is not in the task map returns \<^verbatim>\<open>null\<close> and
  leaves the task map and the billing store (so the usage totals and the daily usage)
  unchanged. In every state that registrations and charges lead to, a charge for a task
  that is in the map removes the entry and returns the result of one \<open>recordUsage\<close> for the
  task's tenant, with the registered duration when it is positive and the observed duration
  otherwise; the billing store is the one that this \<open>recordUsage\<close> leaves. A second charge
  for the same task then returns \<^verbatim>\<open>null\<close> and leaves that store unchanged.
\<close>

theorem chargeOnce_bills_once:
  "(billingTasks taskId = None \<longrightarrow>
      createUsageRecorder dp billingTasks st now taskId obs = (None, billingTasks, st))
   \<and> (bridgeRun dp st0 calls = (billingTasks, st) \<and> billingTasks taskId = Some t \<longrightarrow>
      createUsageRecorder dp billingTasks st now taskId obs =
        (Some (fst (recordUsage dp st now (Some (normalizeBaseId (t_baseId t))) None None
                      (if positive (t_durationMs t) then t_durationMs t else obs) None)),
         billingTasks(taskId := None),
         snd (recordUsage dp st now (Some (normalizeBaseId (t_baseId t))) None None
                (if positive (t_durationMs t) then t_durationMs t else obs) None))
      \<and> createUsageRecorder dp
            (fst (snd (createUsageRecorder dp billingTasks st now taskId obs)))
            (snd (snd (createUsageRecorder dp billingTasks st now taskId obs))) now' taskId obs'
          = (None, billingTasks(taskId := None),
             snd (recordUsage dp st now (Some (normalizeBaseId (t_baseId t))) None None
                    (if positive (t_durationMs t) then t_durationMs t else obs) None)))"
proof (intro conjI impI)
  assume "billingTasks taskId = None"
  then show "createUsageRecorder dp billingTasks st now taskId obs = (None, billingTasks, st)"
    by (rule recorder_absent)
next
  assume a: "bridgeRun dp st0 calls = (billingTasks, st) \<and> billingTasks taskId = Some t"
  then have "fst (bridgeRun dp st0 calls) taskId = Some t" by simp
  then have e: "wellRegistered taskId t" by (rule bridgeRun_entries)
  from a have s: "billingTasks taskId = Some t" by simp
  show 1: "createUsageRecorder dp billingTasks st now taskId obs =
        (Some (fst (recordUsage dp st now (Some (normalizeBaseId (t_baseId t))) None None
                      (if positive (t_durationMs t) then t_durationMs t else obs) None)),
         billingTasks(taskId := None),
         snd (recordUsage dp st now (Some (normalizeBaseId (t_baseId t))) None None
                (if positive (t_durationMs t) then t_durationMs t else obs) None))"
    using s e by (rule recorder_registered)
  show "createUsageRecorder dp
            (fst (snd (createUsageRecorder dp billingTasks st now taskId obs)))
            (snd (snd (createUsageRecorder dp billingTasks st now taskId obs))) now' taskId obs'
          = (None, billingTasks(taskId := None),
             snd (recordUsage dp st now (Some (normalizeBaseId (t_baseId t))) None None
                    (if positive (t_durationMs t) then t_durationMs t else obs) None))"
    unfolding 1 by (simp add: recorder_absent)
qed

lemma norm_base1: "normalizeBaseId (Some '' base-1 '') = ''base-1''"
  by (simp add: normalizeBaseId_def trim_def isSpace_def)

lemma norm_base1_trimmed: "normalizeBaseId (Some ''base-1'') = ''base-1''"
  by (simp add: normalizeBaseId_def trim_def isSpace_def)

lemma regTasks_entry:
  "regTasks ''task-1'' = Some \<lparr>t_baseId = Some ''base-1'', charged = False, t_durationMs = Some 120000\<rparr>"
  by (simp add: regTasks_def registerTask_def norm_base1)

lemma toFixed4_one: "toFixed4 1 = 1"
proof -
  have "\<lfloor>(20001::rat) / 2\<rfloor> = 10000" by (rule floor_unique) simp_all
  then show ?thesis by (simp add: toFixed4_def)
qed

lemma record_base1:
  "fst (recordUsage testPricing emptyBilling 2000 (Some ''base-1'') None None (Some 120000) None)
   = Recorded \<lparr>rc_count = 2, rc_minutes = 2, rc_cost = 1, rc_dailyMinutes = 2,
       rc_dailyCost = 1, rc_unitPrice = 1 / 2, rc_unitLabel = ''min''\<rparr>"
  by (simp add: recordUsage_def norm_base1_trimmed getPricing_def normalizePricing_def emptyPricing_def
      normalizeTieredPrices_def testPricing_def emptyBilling_def createBillingStore_def
      getUsage_def getDailyUsage_def resolveMinutes_def orZero_def calculateTieredCost_def
      resolveCurrentTierUnitPrice_def toFixed4_one Let_def)

theorem chargeOnce_bills_once_witness:
  "bridgeRun testPricing emptyBilling [(1000, Register ''task-1'' (Some '' base-1 '') (Some 120000))]
     = (regTasks, emptyBilling)
   \<and> fst (createUsageRecorder testPricing Map.empty emptyBilling 2000 ''missing'' None) = None
   \<and> fst (createUsageRecorder testPricing regTasks emptyBilling 2000 ''task-1'' (Some 60000))
       = Some (Recorded \<lparr>rc_count = 2, rc_minutes = 2, rc_cost = 1, rc_dailyMinutes = 2,
            rc_dailyCost = 1, rc_unitPrice = 1 / 2, rc_unitLabel = ''min''\<rparr>)
   \<and> fst (createUsageRecorder testPricing
            (fst (snd (createUsageRecorder testPricing regTasks emptyBilling 2000 ''task-1'' (Some 60000))))
            (snd (snd (createUsageRecorder testPricing regTasks emptyBilling 2000 ''task-1'' (Some 60000))))
            3000 ''task-1'' None) = None"
proof -
  have r: "bridgeRun testPricing emptyBilling
      [(1000, Register ''task-1'' (Some '' base-1 '') (Some 120000))] = (regTasks, emptyBilling)"
    by (simp add: bridgeRun_def regTasks_def)
  have p: "positive (Some 120000)" by (simp add: positive_def)
  note a = chargeOnce_bills_once [of Map.empty "''missing''" testPricing emptyBilling 2000 None]
  note b = chargeOnce_bills_once [of regTasks "''task-1''" testPricing emptyBilling 2000 "Some 60000"
      emptyBilling "[(1000, Register ''task-1'' (Some '' base-1 '') (Some 120000))]"
      "\<lparr>t_baseId = Some ''base-1'', charged = False, t_durationMs = Some 120000\<rparr>" 3000 None]
  note c = b [THEN conjunct2, THEN mp, OF conjI [OF r regTasks_entry]]
  have 0: "fst (createUsageRecorder testPricing Map.empty emptyBilling 2000 ''missing'' None) = None"
    using a by simp
  have 1: "fst (createUsageRecorder testPricing regTasks emptyBilling 2000 ''task-1'' (Some 60000))
       = Some (Recorded \<lparr>rc_count = 2, rc_minutes = 2, rc_cost = 1, rc_dailyMinutes = 2,
            rc_dailyCost = 1, rc_unitPrice = 1 / 2, rc_unitLabel = ''min''\<rparr>)"
    using c [THEN conjunct1] p record_base1 by (simp add: norm_base1_trimmed)
  have 2: "fst (createUsageRecorder testPricing
            (fst (snd (createUsageRecorder testPricing regTasks emptyBilling 2000 ''task-1'' (Some 60000))))
            (snd (snd (createUsageRecorder testPricing regTasks emptyBilling 2000 ''task-1'' (Some 60000))))
            3000 ''task-1'' None) = None"
    using c [THEN conjunct1] c [THEN conjunct2] by simp
  show ?thesis using r 0 1 2 by (simp only: simp_thms)
qed

section \<open>Properties of the persistence sink\<close>

text \<open>
  Claim C8 as stated fails: without a store path the write function returns at once, so a
  field that is present in the snapshot does not reach the cache and nothing is queued.
\<close>

theorem writeStore_no_path_counterexample:
  "adminBaseIdList adminOnly = Some [''x'']
   \<and> c_adminBaseIdList (cached (writeStore \<lparr>storePath = [], cached = emptyCache, payloads = []\<rparr> adminOnly)) = []
   \<and> payloads (writeStore \<lparr>storePath = [], cached = emptyCache, payloads = []\<rparr> adminOnly) = []"
  by (simp add: writeStore_def adminOnly_def emptyCache_def)

text \<open>
  Claim C8, amended. When a store path is configured, after a call of the write function
  each of the six fields of the cache is the snapshot's value when the field is present and
  its prior cached value when it is absent, and the payload queued for the write is this
  merged cache; when no store path is configured the call changes nothing.
\<close>

theorem writeStore_merges:
  "(storePath sk \<noteq> [] \<longrightarrow>
      fieldMerged (paidUntilByBaseId data) (c_paidUntilByBaseId (cached sk))
        (c_paidUntilByBaseId (cached (writeStore sk data)))
      \<and> fieldMerged (adminBaseIdList data) (c_adminBaseIdList (cached sk))
        (c_adminBaseIdList (cached (writeStore sk data)))
      \<and> fieldMerged (redeemCodes data) (c_redeemCodes (cached sk))
        (c_redeemCodes (cached (writeStore sk data)))
      \<and> fieldMerged (pricingByBaseId data) (c_pricingByBaseId (cached sk))
        (c_pricingByBaseId (cached (writeStore sk data)))
      \<and> fieldMerged (usageByBaseId data) (c_usageByBaseId (cached sk))
        (c_usageByBaseId (cached (writeStore sk data)))
      \<and> fieldMerged (dailyUsageByBaseId data) (c_dailyUsageByBaseId (cached sk))
        (c_dailyUsageByBaseId (cached (writeStore sk data)))
      \<and> payloads (writeStore sk data) = payloads sk @ [cached (writeStore sk data)])
   \<and> (storePath sk = [] \<longrightarrow> writeStore sk data = sk)"
  by (simp add: writeStore_def fieldMerged_def coalesce_def Let_def split: option.splits)

theorem writeStore_merges_witness:
  "storePath \<lparr>storePath = ''store.json'', cached = emptyCache, payloads = []\<rparr> \<noteq> []
   \<and> c_adminBaseIdList (cached (writeStore \<lparr>storePath = ''store.json'', cached = emptyCache, payloads = []\<rparr> adminOnly)) = [''x'']
   \<and> c_redeemCodes (cached (writeStore \<lparr>storePath = ''store.json'', cached = emptyCache, payloads = []\<rparr> adminOnly)) = []
   \<and> payloads (writeStore \<lparr>storePath = ''store.json'', cached = emptyCache, payloads = []\<rparr> adminOnly)
        = [emptyCache\<lparr>c_adminBaseIdList := [''x'']\<rparr>]
   \<and> writeStore \<lparr>storePath = [], cached = emptyCache, payloads = []\<rparr> adminOnly
        = \<lparr>storePath = [], cached = emptyCache, payloads = []\<rparr>"
  using writeStore_merges [of "\<lparr>storePath = ''store.json'', cached = emptyCache, payloads = []\<rparr>" adminOnly]
    writeStore_merges [of "\<lparr>storePath = [], cached = emptyCache, payloads = []\<rparr>" adminOnly]
  by (simp add: fieldMerged_def adminOnly_def emptyCache_def writeStore_def coalesce_def)

end
